theory Spec2Isabelle
  imports
    Main
    "HOL-Library.Word"
    "HOL-Library.AList"
    "HOL-Library.Char_ord"
    "HOL-Library.List_Lexorder"
    "HOL-Library.Product_Lexorder"
begin

section \<open>Formatting helpers\<close>

text \<open>
  Go's \<^verbatim>\<open>fmt.Sprintf("%d", n)\<close>: the decimal digits of \<open>n\<close>, with a leading minus
  sign for a negative number. Strings are byte lists, as Go strings are.
\<close>

definition digit_char :: "nat \<Rightarrow> char" where
  "digit_char d = ''0123456789'' ! d"

fun string_of_nat :: "nat \<Rightarrow> string" where
  "string_of_nat n =
     (if n < 10 then [digit_char n]
      else string_of_nat (n div 10) @ [digit_char (n mod 10)])"

declare string_of_nat.simps [simp del]

definition itoa :: "int \<Rightarrow> string" where
  "itoa i = (if i < 0 then CHR ''-'' # string_of_nat (nat (- i)) else string_of_nat (nat i))"

section \<open>Data model\<close>

subsection \<open>Kubernetes and Gateway API objects (the fields the code reads)\<close>

text \<open>
  A pointer field that may be \<^verbatim>\<open>nil\<close> is an \<open>option\<close>; \<^verbatim>\<open>int32\<close> is \<open>32 word\<close>,
  read as a signed number with \<open>sint\<close>; Go's \<^verbatim>\<open>int\<close> is \<open>int\<close>.
\<close>

record NamespacedName =
  nn_Namespace :: string
  nn_Name :: string

text \<open>\<^verbatim>\<open>types.NamespacedName.String()\<close>\<close>

definition nn_String :: "NamespacedName \<Rightarrow> string" where
  "nn_String n = nn_Namespace n @ ''/'' @ nn_Name n"

record Service =
  svc_Namespace :: string
  svc_Name :: string

record Endpoint =
  ep_Address :: string
  ep_Port :: "32 word"

text \<open>\<^verbatim>\<open>v1beta1.BackendRef\<close> (an \<^verbatim>\<open>HTTPBackendRef\<close> embeds it)\<close>

record APIBackendRef =
  ref_Kind :: "string option"
  ref_Name :: string
  ref_Namespace :: "string option"
  ref_Port :: "32 word option"
  ref_Weight :: "32 word option"

record HTTPRequestRedirectFilter =
  rf_Scheme :: "string option"
  rf_Hostname :: "string option"
  rf_Port :: "32 word option"
  rf_StatusCode :: "int option"

record HTTPRouteFilter =
  flt_Type :: string
  flt_RequestRedirect :: "HTTPRequestRedirectFilter option"

definition HTTPRouteFilterRequestRedirect :: string where
  "HTTPRouteFilterRequestRedirect = ''RequestRedirect''"

record HTTPHeaderMatch =
  hm_Type :: "string option"
  hm_Name :: string
  hm_Value :: string

record HTTPQueryParamMatch =
  qm_Type :: "string option"
  qm_Name :: string
  qm_Value :: string

record HTTPPathMatch =
  pm_Value :: "string option"

text \<open>
  \<^verbatim>\<open>Headers\<close> and \<^verbatim>\<open>QueryParams\<close> are slices that the code compares with \<^verbatim>\<open>nil\<close>:
  \<open>None\<close> is the nil slice.
\<close>

record HTTPRouteMatch =
  m_Path :: "HTTPPathMatch option"
  m_Method :: "string option"
  m_Headers :: "HTTPHeaderMatch list option"
  m_QueryParams :: "HTTPQueryParamMatch list option"

record HTTPRouteRule =
  rule_Matches :: "HTTPRouteMatch list"
  rule_Filters :: "HTTPRouteFilter list"
  rule_BackendRefs :: "APIBackendRef list"

record HTTPRoute =
  hr_Namespace :: string
  hr_Name :: string
  hr_CreationTimestamp :: int
  hr_Hostnames :: "string list"
  hr_Rules :: "HTTPRouteRule list"

record APIListener =
  ls_Hostname :: "string option"
  ls_Protocol :: string

definition HTTPProtocolType :: string where
  "HTTPProtocolType = ''HTTP''"

definition HTTPSProtocolType :: string where
  "HTTPSProtocolType = ''HTTPS''"

subsection \<open>Backend groups (backend\_group.go)\<close>

record BackendRef =
  br_Name :: string
  br_Valid :: bool
  br_Weight :: "32 word"

record BackendGroup =
  bg_Source :: NamespacedName
  bg_RuleIdx :: int
  bg_Backends :: "BackendRef list"

text \<open>The zero value of the struct, which Go returns for a key that a map does not hold.\<close>

definition zeroBackendGroup :: BackendGroup where
  "zeroBackendGroup =
     \<lparr>bg_Source = \<lparr>nn_Namespace = [], nn_Name = []\<rparr>, bg_RuleIdx = 0, bg_Backends = []\<rparr>"

definition NeedsSplit :: "BackendGroup \<Rightarrow> bool" where
  "NeedsSplit bg = (length (bg_Backends bg) > 1)"

definition GroupName :: "BackendGroup \<Rightarrow> string" where
  "GroupName bg =
     nn_Namespace (bg_Source bg) @ ''_'' @ nn_Name (bg_Source bg) @ ''_rule'' @ itoa (bg_RuleIdx bg)"

definition Name :: "BackendGroup \<Rightarrow> string" where
  "Name bg =
     (case bg_Backends bg of
        [] \<Rightarrow> []
      | [b] \<Rightarrow> (if sint (br_Weight b) \<le> 0 \<or> \<not> br_Valid b then [] else br_Name b)
      | _ \<Rightarrow> GroupName bg)"

subsection \<open>The graph and the per-route backend references\<close>

text \<open>
  Go maps that the code iterates over are association lists: the order of the list is the
  order in which one run of the program happens to visit the keys. \<^verbatim>\<open>ruleIndex\<close> is an
  \<^verbatim>\<open>int\<close>.
\<close>

record BackendRefs =
  brs_Errors :: "string list"
  brs_Resolved :: "(string \<times> Endpoint list) list"
  brs_ByRule :: "(int \<times> BackendGroup) list"

definition newBackendRefs :: BackendRefs where
  "newBackendRefs = \<lparr>brs_Errors = [], brs_Resolved = [], brs_ByRule = []\<rparr>"

text \<open>
  The declarations of \<^verbatim>\<open>route\<close>, \<^verbatim>\<open>listener\<close>, \<^verbatim>\<open>gatewayClass\<close>, \<^verbatim>\<open>gateway\<close> and
  \<^verbatim>\<open>graph\<close> are not part of the sources at hand; the records hold the fields that
  \<^verbatim>\<open>buildConfiguration\<close> and \<^verbatim>\<open>resolveBackendRefs\<close> read or write.
\<close>

record route =
  rt_Source :: HTTPRoute
  rt_BackendRefs :: BackendRefs

record listener =
  l_Source :: APIListener
  l_Valid :: bool
  l_SecretPath :: string
  l_Routes :: "(NamespacedName \<times> route) list"
  l_AcceptedHostnames :: "string set"

record gatewayClass =
  gc_Valid :: bool

record gateway =
  gw_Listeners :: "(string \<times> listener) list"

record graph =
  g_GatewayClass :: "gatewayClass option"
  g_Gateway :: "gateway option"

subsection \<open>The intermediate configuration (configuration.go)\<close>

record SSL =
  ssl_CertificatePath :: string

record Filters =
  f_RequestRedirect :: "HTTPRequestRedirectFilter option"

record MatchRule =
  mr_MatchIdx :: int
  mr_RuleIdx :: int
  mr_Filters :: Filters
  mr_BackendGroup :: BackendGroup
  mr_Source :: HTTPRoute

record PathRule =
  pr_Path :: string
  pr_MatchRules :: "MatchRule list"

record VirtualServer =
  vs_Hostname :: string
  vs_PathRules :: "PathRule list"
  vs_SSL :: "SSL option"

record Upstream =
  up_Name :: string
  up_Endpoints :: "Endpoint list"

record Configuration =
  HTTPServers :: "VirtualServer list"
  SSLServers :: "VirtualServer list"
  Upstreams :: "Upstream list"
  BackendGroups :: "BackendGroup list"

subsection \<open>The data-plane configuration (package http)\<close>

record UpstreamServer =
  us_Address :: string

record http_Upstream =
  hu_Name :: string
  hu_Servers :: "UpstreamServer list"

record Return =
  ret_Code :: int
  ret_URL :: string

record http_SSL =
  Certificate :: string
  CertificateKey :: string

record Location =
  loc_Return :: "Return option"
  loc_Path :: string
  loc_ProxyPass :: string
  loc_HTTPMatchVar :: string
  loc_Internal :: bool

record Server =
  srv_SSL :: "http_SSL option"
  srv_ServerName :: string
  srv_Locations :: "Location list"
  srv_IsDefaultHTTP :: bool
  srv_IsDefaultSSL :: bool

record SplitClientDistribution =
  Percent :: string
  Value :: string

record SplitClient =
  VariableName :: string
  Distributions :: "SplitClientDistribution list"

definition StatusFound :: int where
  "StatusFound = 302"

definition StatusNotFound :: int where
  "StatusNotFound = 404"

section \<open>Backend reference validation and resolution (backend\_refs.go)\<close>

text \<open>An \<^verbatim>\<open>error\<close> is its message; \<open>None\<close> is the nil error.\<close>

definition validateBackendRef :: "APIBackendRef \<Rightarrow> string \<Rightarrow> string option" where
  "validateBackendRef ref routeNs =
     (if ref_Kind ref \<noteq> None \<and> the (ref_Kind ref) \<noteq> ''Service''
      then Some (''the Kind must be Service; got '' @ the (ref_Kind ref))
      else if ref_Namespace ref \<noteq> None \<and> the (ref_Namespace ref) \<noteq> routeNs
      then Some (''cross-namespace routing is not permitted; namespace '' @ the (ref_Namespace ref)
                 @ '' does not match the HTTPRoute namespace '' @ routeNs)
      else if ref_Port ref = None then Some ''port is missing''
      else None)"

text \<open>
  The services are only looked up, so the Go map is a HOL map. The result is the error
  (\<open>Inl\<close>) or the Service with the port.
\<close>

definition getServiceAndPortFromRef ::
  "APIBackendRef \<Rightarrow> string \<Rightarrow> (NamespacedName \<rightharpoonup> Service) \<Rightarrow> string + (Service \<times> 32 word)" where
  "getServiceAndPortFromRef ref routeNamespace services =
     (case validateBackendRef ref routeNamespace of
        Some err \<Rightarrow> Inl err
      | None \<Rightarrow>
          (let svcNsName = \<lparr>nn_Namespace = routeNamespace, nn_Name = ref_Name ref\<rparr> in
           case services svcNsName of
             None \<Rightarrow> Inl (''the Service '' @ nn_String svcNsName @ '' does not exist'')
           | Some svc \<Rightarrow>
               (case ref_Port ref of
                  Some port \<Rightarrow> Inr (svc, port)
                | None \<Rightarrow> Inl ''port is missing'')))"

text \<open>
  \<^verbatim>\<open>resolver.ServiceResolver\<close> is an interface whose implementation is not part of the
  sources at hand: \<^verbatim>\<open>Resolve(ctx, svc, port)\<close> is a parameter that returns the endpoints
  and the error (\<open>None\<close> for nil).
\<close>

type_synonym ServiceResolver = "Service \<Rightarrow> 32 word \<Rightarrow> Endpoint list \<times> string option"

text \<open>
  The body of the innermost loop of \<^verbatim>\<open>resolveBackendRefsForRoutes\<close>: one backendRef of a
  rule, with the slice \<^verbatim>\<open>backends\<close> and the route's \<^verbatim>\<open>BackendRefs\<close> as the state. The
  port passed to the resolver, \<^verbatim>\<open>*ref.Port\<close>, is the port that
  \<^verbatim>\<open>getServiceAndPortFromRef\<close> returned.
\<close>

definition backendName :: "Service \<Rightarrow> 32 word \<Rightarrow> string" where
  "backendName svc port = svc_Namespace svc @ ''_'' @ svc_Name svc @ ''_'' @ itoa (sint port)"

definition resolveRef ::
  "ServiceResolver \<Rightarrow> (NamespacedName \<rightharpoonup> Service) \<Rightarrow> string \<Rightarrow> APIBackendRef
     \<Rightarrow> BackendRef list \<times> BackendRefs \<Rightarrow> BackendRef list \<times> BackendRefs" where
  "resolveRef resolver services routeNs ref st =
     (let backends = fst st; brs = snd st;
          weight = (case ref_Weight ref of None \<Rightarrow> 1 | Some w \<Rightarrow> w) in
      case getServiceAndPortFromRef ref routeNs services of
        Inl err \<Rightarrow>
          (backends @ [\<lparr>br_Name = [], br_Valid = False, br_Weight = weight\<rparr>],
           brs\<lparr>brs_Errors := brs_Errors brs @ [err]\<rparr>)
      | Inr (svc, port) \<Rightarrow>
          (let name = backendName svc port;
               res = resolver svc port;
               errs = (case snd res of None \<Rightarrow> brs_Errors brs | Some e \<Rightarrow> brs_Errors brs @ [e]) in
           (backends @ [\<lparr>br_Name = name, br_Valid = True, br_Weight = weight\<rparr>],
            brs\<lparr>brs_Errors := errs,
                brs_Resolved := AList.update name (fst res) (brs_Resolved brs)\<rparr>)))"

text \<open>The body of the loop over the rules of one route: rule \<open>idx\<close>.\<close>

definition resolveRule ::
  "ServiceResolver \<Rightarrow> (NamespacedName \<rightharpoonup> Service) \<Rightarrow> HTTPRoute \<Rightarrow> nat \<times> HTTPRouteRule
     \<Rightarrow> BackendRefs \<Rightarrow> BackendRefs" where
  "resolveRule resolver services src ir brs =
     (let idx = int (fst ir);
          st = fold (resolveRef resolver services (hr_Namespace src)) (rule_BackendRefs (snd ir)) ([], brs);
          brs' = snd st in
      brs'\<lparr>brs_ByRule :=
             AList.update idx
               \<lparr>bg_Source = \<lparr>nn_Namespace = hr_Namespace src, nn_Name = hr_Name src\<rparr>,
                bg_RuleIdx = idx, bg_Backends = fst st\<rparr>
               (brs_ByRule brs')\<rparr>)"

text \<open>The body of the loop over the routes.\<close>

definition resolveRoute ::
  "ServiceResolver \<Rightarrow> (NamespacedName \<rightharpoonup> Service) \<Rightarrow> route \<Rightarrow> route" where
  "resolveRoute resolver services r =
     r\<lparr>rt_BackendRefs :=
         fold (resolveRule resolver services (rt_Source r))
              (enumerate 0 (hr_Rules (rt_Source r))) (rt_BackendRefs r)\<rparr>"





section \<open>Upstreams of the data plane (upstreams.go)\<close>

definition nginx502Server :: string where
  "nginx502Server = ''unix:/var/lib/nginx/nginx-502-server.sock''"

definition invalidBackendRef :: string where
  "invalidBackendRef = ''invalid-backend-ref''"

definition createUpstream :: "Upstream \<Rightarrow> http_Upstream" where
  "createUpstream up =
     (if length (up_Endpoints up) = 0
      then \<lparr>hu_Name = up_Name up, hu_Servers = [\<lparr>us_Address = nginx502Server\<rparr>]\<rparr>
      else \<lparr>hu_Name = up_Name up,
            hu_Servers =
              map (\<lambda>ep. \<lparr>us_Address = ep_Address ep @ '':'' @ itoa (sint (ep_Port ep))\<rparr>)
                  (up_Endpoints up)\<rparr>)"

definition createInvalidBackendRefUpstream :: http_Upstream where
  "createInvalidBackendRefUpstream =
     \<lparr>hu_Name = invalidBackendRef, hu_Servers = [\<lparr>us_Address = nginx502Server\<rparr>]\<rparr>"

definition createUpstreams :: "Upstream list \<Rightarrow> http_Upstream list" where
  "createUpstreams upstreams = map createUpstream upstreams @ [createInvalidBackendRefUpstream]"

section \<open>Servers of the data plane (servers.go)\<close>

text \<open>
  Three functions that \<^verbatim>\<open>createServer\<close> calls are not part of the sources at hand or
  belong to Go's library; they are parameters of the model:
  \<^verbatim>\<open>convertStringToSafeVariableName\<close>, \<^verbatim>\<open>json.Marshal\<close> on a slice of \<^verbatim>\<open>httpMatch\<close>
  (it cannot fail there) and \<^verbatim>\<open>strings.ToLower\<close>.
\<close>

record httpMatch =
  hmt_Any :: bool
  hmt_Method :: string
  hmt_Headers :: "string list option"
  hmt_QueryParams :: "string list option"
  hmt_RedirectPath :: string

record Lib =
  convertStringToSafeVariableName :: "string \<Rightarrow> string"
  json_Marshal :: "httpMatch list \<Rightarrow> string"
  strings_ToLower :: "string \<Rightarrow> string"

text \<open>
  \<^verbatim>\<open>MatchRule.GetMatch\<close> indexes two slices; an index out of range panics, which is
  \<open>None\<close> here and in every function that calls it.
\<close>

definition nth_opt :: "'a list \<Rightarrow> int \<Rightarrow> 'a option" where
  "nth_opt xs i = (if 0 \<le> i \<and> i < int (length xs) then Some (xs ! nat i) else None)"

definition GetMatch :: "MatchRule \<Rightarrow> HTTPRouteMatch option" where
  "GetMatch r =
     (case nth_opt (hr_Rules (mr_Source r)) (mr_RuleIdx r) of
        None \<Rightarrow> None
      | Some rule \<Rightarrow> nth_opt (rule_Matches rule) (mr_MatchIdx r))"

definition createDefaultSSLServer :: Server where
  "createDefaultSSLServer =
     \<lparr>srv_SSL = None, srv_ServerName = [], srv_Locations = [],
      srv_IsDefaultHTTP = False, srv_IsDefaultSSL = True\<rparr>"

definition createDefaultHTTPServer :: Server where
  "createDefaultHTTPServer =
     \<lparr>srv_SSL = None, srv_ServerName = [], srv_Locations = [],
      srv_IsDefaultHTTP = True, srv_IsDefaultSSL = False\<rparr>"

definition createReturnValForRedirectFilter ::
  "HTTPRequestRedirectFilter option \<Rightarrow> int \<Rightarrow> Return option" where
  "createReturnValForRedirectFilter flt listenerPort =
     (case flt of
        None \<Rightarrow> None
      | Some f \<Rightarrow>
          (let hostname = (case rf_Hostname f of None \<Rightarrow> ''$host'' | Some h \<Rightarrow> h);
               code = (case rf_StatusCode f of None \<Rightarrow> StatusFound | Some c \<Rightarrow> c);
               port = (case rf_Port f of None \<Rightarrow> listenerPort | Some p \<Rightarrow> sint p);
               scheme = (case rf_Scheme f of None \<Rightarrow> ''$scheme'' | Some s \<Rightarrow> s) in
           Some \<lparr>ret_Code = code,
                 ret_URL = scheme @ ''://'' @ hostname @ '':'' @ itoa port @ ''$request_uri''\<rparr>))"

definition isPathOnlyMatch :: "HTTPRouteMatch \<Rightarrow> bool" where
  "isPathOnlyMatch match =
     (m_Method match = None \<and> m_Headers match = None \<and> m_QueryParams match = None)"

definition createQueryParamKeyValString :: "HTTPQueryParamMatch \<Rightarrow> string" where
  "createQueryParamKeyValString p = qm_Name p @ ''='' @ qm_Value p"

definition createHeaderKeyValString :: "HTTPHeaderMatch \<Rightarrow> string" where
  "createHeaderKeyValString h = hm_Name h @ '':'' @ hm_Value h"

text \<open>
  The two loops of \<^verbatim>\<open>createHTTPMatch\<close>. \<^verbatim>\<open>*h.Type\<close> dereferences a pointer: a nil
  pointer panics (\<open>None\<close>). The second argument of \<open>exactHeaders\<close> is the set
  \<^verbatim>\<open>headerNames\<close> of the names seen so far.
\<close>

fun exactHeaders :: "Lib \<Rightarrow> string set \<Rightarrow> HTTPHeaderMatch list \<Rightarrow> string list option" where
  "exactHeaders lib headerNames [] = Some []"
| "exactHeaders lib headerNames (h # hs) =
     (case hm_Type h of
        None \<Rightarrow> None
      | Some t \<Rightarrow>
          (if t = ''Exact'' \<and> strings_ToLower lib (hm_Name h) \<notin> headerNames
           then map_option (\<lambda>r. createHeaderKeyValString h # r)
                  (exactHeaders lib (insert (strings_ToLower lib (hm_Name h)) headerNames) hs)
           else exactHeaders lib headerNames hs))"

fun exactQueryParams :: "HTTPQueryParamMatch list \<Rightarrow> string list option" where
  "exactQueryParams [] = Some []"
| "exactQueryParams (p # ps) =
     (case qm_Type p of
        None \<Rightarrow> None
      | Some t \<Rightarrow>
          (if t = ''Exact''
           then map_option (\<lambda>r. createQueryParamKeyValString p # r) (exactQueryParams ps)
           else exactQueryParams ps))"

definition createHTTPMatch :: "Lib \<Rightarrow> HTTPRouteMatch \<Rightarrow> string \<Rightarrow> httpMatch option" where
  "createHTTPMatch lib match redirectPath =
     (let hm = \<lparr>hmt_Any = False, hmt_Method = [], hmt_Headers = None, hmt_QueryParams = None,
                hmt_RedirectPath = redirectPath\<rparr> in
      if isPathOnlyMatch match then Some (hm\<lparr>hmt_Any := True\<rparr>)
      else
        (let hm1 = (case m_Method match of None \<Rightarrow> hm | Some m \<Rightarrow> hm\<lparr>hmt_Method := m\<rparr>) in
         case (case m_Headers match of
                 None \<Rightarrow> Some hm1
               | Some hs \<Rightarrow> map_option (\<lambda>r. hm1\<lparr>hmt_Headers := Some r\<rparr>) (exactHeaders lib {} hs)) of
           None \<Rightarrow> None
         | Some hm2 \<Rightarrow>
             (case m_QueryParams match of
                None \<Rightarrow> Some hm2
              | Some ps \<Rightarrow> map_option (\<lambda>r. hm2\<lparr>hmt_QueryParams := Some r\<rparr>) (exactQueryParams ps))))"

definition createProxyPass :: "string \<Rightarrow> string" where
  "createProxyPass address = ''http://'' @ address"

definition createProxyPassForVar :: "Lib \<Rightarrow> string \<Rightarrow> string" where
  "createProxyPassForVar lib variable = ''http://$'' @ convertStringToSafeVariableName lib variable"

definition emptyLocation :: Location where
  "emptyLocation =
     \<lparr>loc_Return = None, loc_Path = [], loc_ProxyPass = [], loc_HTTPMatchVar = [],
      loc_Internal = False\<rparr>"

definition createMatchLocation :: "string \<Rightarrow> Location" where
  "createMatchLocation path = emptyLocation\<lparr>loc_Path := path, loc_Internal := True\<rparr>"

definition createPathForMatch :: "string \<Rightarrow> int \<Rightarrow> string" where
  "createPathForMatch path routeIdx = path @ ''_route'' @ itoa routeIdx"

text \<open>
  The body of the inner loop of \<^verbatim>\<open>createServer\<close>, for the match rule \<open>r\<close> at index
  \<open>matchRuleIdx\<close> of \<open>rule\<close>: the location that is appended to \<^verbatim>\<open>locs\<close> and, when there
  is one, the \<^verbatim>\<open>httpMatch\<close> that is appended to \<^verbatim>\<open>matches\<close>.
\<close>

definition createMatchRuleLocation ::
  "Lib \<Rightarrow> int \<Rightarrow> PathRule \<Rightarrow> int \<Rightarrow> MatchRule \<Rightarrow> (Location \<times> httpMatch option) option" where
  "createMatchRuleLocation lib listenerPort rule matchRuleIdx r =
     (case GetMatch r of
        None \<Rightarrow> None
      | Some m \<Rightarrow>
          (case (if length (pr_MatchRules rule) = 1 \<and> isPathOnlyMatch m
                 then Some (emptyLocation\<lparr>loc_Path := pr_Path rule\<rparr>, None)
                 else (let path = createPathForMatch (pr_Path rule) matchRuleIdx in
                       map_option (\<lambda>hm. (createMatchLocation path, Some hm))
                         (createHTTPMatch lib m path))) of
             None \<Rightarrow> None
           | Some (loc, hmo) \<Rightarrow>
               (if f_RequestRedirect (mr_Filters r) \<noteq> None
                then Some (loc\<lparr>loc_Return :=
                                 createReturnValForRedirectFilter (f_RequestRedirect (mr_Filters r))
                                   listenerPort\<rparr>, hmo)
                else
                  (let backendName = Name (mr_BackendGroup r);
                       backendName = (if backendName = [] then invalidBackendRef else backendName) in
                   if NeedsSplit (mr_BackendGroup r)
                   then Some (loc\<lparr>loc_ProxyPass := createProxyPassForVar lib backendName\<rparr>, hmo)
                   else Some (loc\<lparr>loc_ProxyPass := createProxyPass backendName\<rparr>, hmo)))))"

text \<open>
  The body of the outer loop: the locations of the match rules of one path rule, followed,
  when \<^verbatim>\<open>matches\<close> is not empty, by the location that dispatches on them.
\<close>

definition createPathRuleLocations :: "Lib \<Rightarrow> int \<Rightarrow> PathRule \<Rightarrow> Location list option" where
  "createPathRuleLocations lib listenerPort rule =
     (case those (map (\<lambda>ir. createMatchRuleLocation lib listenerPort rule (int (fst ir)) (snd ir))
                      (enumerate 0 (pr_MatchRules rule))) of
        None \<Rightarrow> None
      | Some res \<Rightarrow>
          (let matches = concat (map (\<lambda>lh. case snd lh of None \<Rightarrow> [] | Some hm \<Rightarrow> [hm]) res) in
           Some (map fst res
                 @ (if length matches > 0
                    then [emptyLocation\<lparr>loc_Path := pr_Path rule,
                                        loc_HTTPMatchVar := json_Marshal lib matches\<rparr>]
                    else []))))"

definition listenerPortOf :: "VirtualServer \<Rightarrow> int" where
  "listenerPortOf virtualServer = (if vs_SSL virtualServer \<noteq> None then 443 else 80)"

definition createServer :: "Lib \<Rightarrow> VirtualServer \<Rightarrow> Server option" where
  "createServer lib virtualServer =
     (let s = \<lparr>srv_SSL =
                 (case vs_SSL virtualServer of
                    None \<Rightarrow> None
                  | Some ssl \<Rightarrow> Some \<lparr>Certificate = ssl_CertificatePath ssl,
                                      CertificateKey = ssl_CertificatePath ssl\<rparr>),
               srv_ServerName = vs_Hostname virtualServer, srv_Locations = [],
               srv_IsDefaultHTTP = False, srv_IsDefaultSSL = False\<rparr>;
          listenerPort = listenerPortOf virtualServer in
      if length (vs_PathRules virtualServer) = 0
      then Some (s\<lparr>srv_Locations :=
                     [emptyLocation\<lparr>loc_Path := ''/'',
                                     loc_Return := Some \<lparr>ret_Code = StatusNotFound, ret_URL = []\<rparr>\<rparr>]\<rparr>)
      else
        (case those (map (createPathRuleLocations lib listenerPort) (vs_PathRules virtualServer)) of
           None \<Rightarrow> None
         | Some locss \<Rightarrow> Some (s\<lparr>srv_Locations := concat locss\<rparr>)))"

definition createServers :: "Lib \<Rightarrow> Configuration \<Rightarrow> Server list option" where
  "createServers lib conf =
     (let confServers = HTTPServers conf @ SSLServers conf in
      case those (map (createServer lib) confServers) of
        None \<Rightarrow> None
      | Some ss \<Rightarrow>
          Some ((if length (HTTPServers conf) > 0 then [createDefaultHTTPServer] else [])
                @ (if length (SSLServers conf) > 0 then [createDefaultSSLServer] else [])
                @ ss))"

section \<open>Building the intermediate configuration (configuration.go)\<close>

definition wildcardHostname :: string where
  "wildcardHostname = ''~^''"

text \<open>
  Modelled from the spec: \<^verbatim>\<open>getHostname\<close> is missing from the sources. It reads the
  optional hostname of a listener, and "a listener has no hostname" is the wildcard case:
  the unset hostname reads as the empty string, which \<^verbatim>\<open>getListenerHostname\<close> turns
  into the wildcard sentinel.
\<close>

definition getHostname :: "string option \<Rightarrow> string" where
  "getHostname h = (case h of None \<Rightarrow> [] | Some s \<Rightarrow> s)"

definition getListenerHostname :: "string option \<Rightarrow> string" where
  "getListenerHostname h = (let name = getHostname h in if name = [] then wildcardHostname else name)"

definition getPath :: "HTTPPathMatch option \<Rightarrow> string" where
  "getPath path =
     (case path of
        None \<Rightarrow> ''/''
      | Some p \<Rightarrow> (case pm_Value p of None \<Rightarrow> ''/'' | Some v \<Rightarrow> if v = [] then ''/'' else v))"

text \<open>The loop returns at the first filter whose type is \<^verbatim>\<open>RequestRedirect\<close>.\<close>

fun createFilters :: "HTTPRouteFilter list \<Rightarrow> Filters" where
  "createFilters [] = \<lparr>f_RequestRedirect = None\<rparr>"
| "createFilters (f # fs) =
     (if flt_Type f = HTTPRouteFilterRequestRedirect
      then \<lparr>f_RequestRedirect = flt_RequestRedirect f\<rparr>
      else createFilters fs)"

text \<open>
  Modelled from the spec: \<^verbatim>\<open>sortMatchRules\<close> is missing from the sources. "Tie-break
  order among MatchRules under the same path: (a) earlier route creation timestamp;
  (b) lexicographic namespaced name; (c) ascending (ruleIdx, matchIdx)."
\<close>

definition matchRuleKey :: "MatchRule \<Rightarrow> int \<times> string \<times> string \<times> int \<times> int" where
  "matchRuleKey r =
     (hr_CreationTimestamp (mr_Source r), hr_Namespace (mr_Source r), hr_Name (mr_Source r),
      mr_RuleIdx r, mr_MatchIdx r)"

definition sortMatchRules :: "MatchRule list \<Rightarrow> MatchRule list" where
  "sortMatchRules matchRules = sort_key matchRuleKey matchRules"

text \<open>
  The maps that \<^verbatim>\<open>hostPathRules\<close> builds are association lists too; what is read from
  them is sorted before it is returned. \<^verbatim>\<open>sort.Slice\<close> is \<open>sort_key\<close>: the result is
  sorted by the key and is a permutation of the input (Go does not fix the order of
  elements with equal keys, \<open>sort_key\<close> keeps it).
\<close>

record hostPathRules =
  rulesPerHost :: "(string \<times> (string \<times> PathRule) list) list"
  listenersForHost :: "(string \<times> listener) list"
  listeners :: "listener list"

definition newHostPathRules :: hostPathRules where
  "newHostPathRules = \<lparr>rulesPerHost = [], listenersForHost = [], listeners = []\<rparr>"

text \<open>The hostnames of a route that the listener accepts (first loop over a route).\<close>

definition acceptedHostnames :: "listener \<Rightarrow> route \<Rightarrow> string list" where
  "acceptedHostnames l r = filter (\<lambda>h. h \<in> l_AcceptedHostnames l) (hr_Hostnames (rt_Source r))"

text \<open>Second loop over a route: one accepted hostname.\<close>

definition registerHostname :: "listener \<Rightarrow> string \<Rightarrow> hostPathRules \<Rightarrow> hostPathRules" where
  "registerHostname l h hpr =
     hpr\<lparr>listenersForHost := AList.update h l (listenersForHost hpr),
         rulesPerHost :=
           (if map_of (rulesPerHost hpr) h = None then AList.update h [] (rulesPerHost hpr)
            else rulesPerHost hpr)\<rparr>"

text \<open>
  Innermost body of the third loop: match \<open>j\<close> of rule \<open>i\<close> under hostname \<open>h\<close>. The map
  \<^verbatim>\<open>rulesPerHost[h]\<close> exists when the body runs, since \<open>h\<close> has been registered.
\<close>

definition addMatchRule ::
  "route \<Rightarrow> Filters \<Rightarrow> nat \<Rightarrow> string \<Rightarrow> nat \<times> HTTPRouteMatch \<Rightarrow> hostPathRules \<Rightarrow> hostPathRules" where
  "addMatchRule r filters i h jm hpr =
     (let path = getPath (m_Path (snd jm));
          rules = (case map_of (rulesPerHost hpr) h of None \<Rightarrow> [] | Some rs \<Rightarrow> rs);
          rule = (case map_of rules path of
                    None \<Rightarrow> \<lparr>pr_Path = path, pr_MatchRules = []\<rparr>
                  | Some rl \<Rightarrow> rl);
          rule' = rule\<lparr>pr_MatchRules := pr_MatchRules rule @
                    [\<lparr>mr_MatchIdx = int (fst jm), mr_RuleIdx = int i, mr_Filters = filters,
                      mr_BackendGroup =
                        (case map_of (brs_ByRule (rt_BackendRefs r)) (int i) of
                           None \<Rightarrow> zeroBackendGroup
                         | Some g \<Rightarrow> g),
                      mr_Source = rt_Source r\<rparr>]\<rparr> in
      hpr\<lparr>rulesPerHost := AList.update h (AList.update path rule' rules) (rulesPerHost hpr)\<rparr>)"

definition upsertRule ::
  "route \<Rightarrow> string list \<Rightarrow> nat \<times> HTTPRouteRule \<Rightarrow> hostPathRules \<Rightarrow> hostPathRules" where
  "upsertRule r hostnames irule hpr =
     (let filters = createFilters (rule_Filters (snd irule)) in
      fold (\<lambda>h. fold (addMatchRule r filters (fst irule) h)
                      (enumerate 0 (rule_Matches (snd irule))))
           hostnames hpr)"

definition upsertRoute :: "listener \<Rightarrow> route \<Rightarrow> hostPathRules \<Rightarrow> hostPathRules" where
  "upsertRoute l r hpr =
     (let hostnames = acceptedHostnames l r in
      fold (upsertRule r hostnames) (enumerate 0 (hr_Rules (rt_Source r)))
           (fold (registerHostname l) hostnames hpr))"

definition upsertListener :: "hostPathRules \<Rightarrow> listener \<Rightarrow> hostPathRules" where
  "upsertListener hpr l =
     fold (\<lambda>kr. upsertRoute l (snd kr)) (l_Routes l)
          (if ls_Protocol (l_Source l) = HTTPSProtocolType
           then hpr\<lparr>listeners := listeners hpr @ [l]\<rparr> else hpr)"

definition sslOf :: "listener \<Rightarrow> SSL option" where
  "sslOf l = (if l_SecretPath l \<noteq> [] then Some \<lparr>ssl_CertificatePath = l_SecretPath l\<rparr> else None)"

text \<open>
  The method \<^verbatim>\<open>hostPathRules.buildServers\<close>. It panics (\<open>None\<close>) when a hostname has
  rules and no listener.
\<close>

definition hostServer :: "hostPathRules \<Rightarrow> string \<times> (string \<times> PathRule) list \<Rightarrow> VirtualServer option" where
  "hostServer hpr hrules =
     (case map_of (listenersForHost hpr) (fst hrules) of
        None \<Rightarrow> None
      | Some l \<Rightarrow>
          Some \<lparr>vs_Hostname = fst hrules,
                vs_PathRules =
                  sort_key pr_Path
                    (map (\<lambda>pr. (snd pr)\<lparr>pr_MatchRules := sortMatchRules (pr_MatchRules (snd pr))\<rparr>)
                         (snd hrules)),
                vs_SSL = sslOf l\<rparr>)"

definition listenerServer :: "listener \<Rightarrow> VirtualServer list" where
  "listenerServer l =
     (let hostname = getListenerHostname (ls_Hostname (l_Source l)) in
      if length (l_Routes l) = 0 \<or> hostname = wildcardHostname
      then [\<lparr>vs_Hostname = hostname, vs_PathRules = [], vs_SSL = sslOf l\<rparr>]
      else [])"

definition hpr_buildServers :: "hostPathRules \<Rightarrow> VirtualServer list option" where
  "hpr_buildServers hpr =
     (case those (map (hostServer hpr) (rulesPerHost hpr)) of
        None \<Rightarrow> None
      | Some servers \<Rightarrow>
          Some (sort_key vs_Hostname (servers @ concat (map listenerServer (listeners hpr)))))"

text \<open>
  The function \<^verbatim>\<open>buildServers\<close>. The state of its loop is the pair of rule sets for HTTP
  and HTTPS. For any other protocol the map \<^verbatim>\<open>rulesForProtocol\<close> yields a nil pointer,
  and \<^verbatim>\<open>upsertListener\<close> dereferences it (a panic) as soon as a route has an accepted
  hostname.
\<close>

definition buildServersStep ::
  "string \<times> listener \<Rightarrow> (hostPathRules \<times> hostPathRules) option
     \<Rightarrow> (hostPathRules \<times> hostPathRules) option" where
  "buildServersStep kl sto =
     (case sto of
        None \<Rightarrow> None
      | Some st \<Rightarrow>
          (let l = snd kl in
           if \<not> l_Valid l then Some st
           else if ls_Protocol (l_Source l) = HTTPProtocolType
           then Some (upsertListener (fst st) l, snd st)
           else if ls_Protocol (l_Source l) = HTTPSProtocolType
           then Some (fst st, upsertListener (snd st) l)
           else if \<exists>kr \<in> set (l_Routes l). acceptedHostnames l (snd kr) \<noteq> [] then None
           else Some st))"

definition buildServers ::
  "(string \<times> listener) list \<Rightarrow> (VirtualServer list \<times> VirtualServer list) option" where
  "buildServers lsnrs =
     (case fold buildServersStep lsnrs (Some (newHostPathRules, newHostPathRules)) of
        None \<Rightarrow> None
      | Some st \<Rightarrow>
          (case hpr_buildServers (fst st) of
             None \<Rightarrow> None
           | Some http \<Rightarrow>
               (case hpr_buildServers (snd st) of
                  None \<Rightarrow> None
                | Some ssl \<Rightarrow> Some (http, ssl))))"

definition addUpstream :: "string \<times> Endpoint list \<Rightarrow> (string \<times> Upstream) list \<Rightarrow> (string \<times> Upstream) list" where
  "addUpstream ne uniqueUpstreams =
     (if map_of uniqueUpstreams (fst ne) = None
      then AList.update (fst ne) \<lparr>up_Name = fst ne, up_Endpoints = snd ne\<rparr> uniqueUpstreams
      else uniqueUpstreams)"

definition buildUpstreams :: "(string \<times> listener) list \<Rightarrow> Upstream list" where
  "buildUpstreams lsnrs =
     (let uniqueUpstreams =
            fold (\<lambda>kl uu.
                    if \<not> l_Valid (snd kl) then uu
                    else fold (\<lambda>kr. fold addUpstream (brs_Resolved (rt_BackendRefs (snd kr))))
                              (l_Routes (snd kl)) uu)
                 lsnrs [] in
      sort_key up_Name (map snd uniqueUpstreams))"

definition addGroup :: "int \<times> BackendGroup \<Rightarrow> (string \<times> BackendGroup) list \<Rightarrow> (string \<times> BackendGroup) list" where
  "addGroup ig uniqueGroups =
     (if map_of uniqueGroups (GroupName (snd ig)) = None
      then AList.update (GroupName (snd ig)) (snd ig) uniqueGroups
      else uniqueGroups)"

definition buildBackendGroups :: "(string \<times> listener) list \<Rightarrow> BackendGroup list" where
  "buildBackendGroups lsnrs =
     (let uniqueGroups =
            fold (\<lambda>kl ug.
                    if \<not> l_Valid (snd kl) then ug
                    else fold (\<lambda>kr. fold addGroup (brs_ByRule (rt_BackendRefs (snd kr))))
                              (l_Routes (snd kl)) ug)
                 lsnrs [] in
      sort_key GroupName (map snd uniqueGroups))"

definition emptyConfiguration :: Configuration where
  "emptyConfiguration = \<lparr>HTTPServers = [], SSLServers = [], Upstreams = [], BackendGroups = []\<rparr>"

definition buildConfiguration :: "graph \<Rightarrow> Configuration option" where
  "buildConfiguration g =
     (if g_GatewayClass g = None \<or> \<not> gc_Valid (the (g_GatewayClass g)) then Some emptyConfiguration
      else if g_Gateway g = None then Some emptyConfiguration
      else
        (let lsnrs = gw_Listeners (the (g_Gateway g));
             upstreams = buildUpstreams lsnrs in
         case buildServers lsnrs of
           None \<Rightarrow> None
         | Some hs \<Rightarrow>
             Some \<lparr>HTTPServers = fst hs, SSLServers = snd hs, Upstreams = upstreams,
                   BackendGroups = buildBackendGroups lsnrs\<rparr>))"

section \<open>Example inputs\<close>

text \<open>
  Inputs in the shape of the repository's tests, for the concrete instances of the
  theorems below. \<open>exampleLib\<close> is one choice of the three library parameters.
\<close>

definition exampleLib :: Lib where
  "exampleLib =
     \<lparr>convertStringToSafeVariableName = map (\<lambda>c. if c = CHR ''-'' then CHR ''_'' else c),
      json_Marshal = (\<lambda>ms. ''[]''),
      strings_ToLower = (\<lambda>s. s)\<rparr>"

definition exampleMatch :: "string \<Rightarrow> HTTPRouteMatch" where
  "exampleMatch p =
     \<lparr>m_Path = Some \<lparr>pm_Value = Some p\<rparr>, m_Method = None, m_Headers = None, m_QueryParams = None\<rparr>"

definition exampleRedirect :: HTTPRequestRedirectFilter where
  "exampleRedirect =
     \<lparr>rf_Scheme = None, rf_Hostname = Some ''foo.example.com'', rf_Port = None, rf_StatusCode = None\<rparr>"

definition exampleRoute :: "string \<Rightarrow> string \<Rightarrow> HTTPRouteFilter list \<Rightarrow> HTTPRoute" where
  "exampleRoute name hostname filters =
     \<lparr>hr_Namespace = ''test'', hr_Name = name, hr_CreationTimestamp = 0, hr_Hostnames = [hostname],
      hr_Rules = [\<lparr>rule_Matches = [exampleMatch ''/''], rule_Filters = filters, rule_BackendRefs = []\<rparr>]\<rparr>"

definition exampleGroup :: "string \<Rightarrow> BackendRef list \<Rightarrow> BackendGroup" where
  "exampleGroup name backends =
     \<lparr>bg_Source = \<lparr>nn_Namespace = ''test'', nn_Name = name\<rparr>, bg_RuleIdx = 0, bg_Backends = backends\<rparr>"

definition exampleMatchRule :: "HTTPRouteFilter list \<Rightarrow> BackendRef list \<Rightarrow> MatchRule" where
  "exampleMatchRule filters backends =
     \<lparr>mr_MatchIdx = 0, mr_RuleIdx = 0, mr_Filters = createFilters filters,
      mr_BackendGroup = exampleGroup ''hr-1'' backends,
      mr_Source = exampleRoute ''hr-1'' ''foo.example.com'' filters\<rparr>"

definition examplePathRule :: "HTTPRouteFilter list \<Rightarrow> BackendRef list \<Rightarrow> PathRule" where
  "examplePathRule filters backends =
     \<lparr>pr_Path = ''/'', pr_MatchRules = [exampleMatchRule filters backends]\<rparr>"

definition exampleServer :: "HTTPRouteFilter list \<Rightarrow> BackendRef list \<Rightarrow> VirtualServer" where
  "exampleServer filters backends =
     \<lparr>vs_Hostname = ''foo.example.com'', vs_PathRules = [examplePathRule filters backends],
      vs_SSL = None\<rparr>"

section \<open>Auxiliary notions for the proofs\<close>

text \<open>
  What one backendRef contributes to the three results of the resolver's loops: its slot
  in the backend group, its error messages, and its entry in the map of resolved backends.
  The lemmas below show that the loops compute exactly these.
\<close>

definition refWeight :: "APIBackendRef \<Rightarrow> 32 word" where
  "refWeight ref = (case ref_Weight ref of None \<Rightarrow> 1 | Some w \<Rightarrow> w)"

definition refSlot :: "(NamespacedName \<rightharpoonup> Service) \<Rightarrow> string \<Rightarrow> APIBackendRef \<Rightarrow> BackendRef" where
  "refSlot services routeNs ref =
     (case getServiceAndPortFromRef ref routeNs services of
        Inl err \<Rightarrow> \<lparr>br_Name = [], br_Valid = False, br_Weight = refWeight ref\<rparr>
      | Inr sp \<Rightarrow> \<lparr>br_Name = backendName (fst sp) (snd sp), br_Valid = True, br_Weight = refWeight ref\<rparr>)"

definition refErrors ::
  "ServiceResolver \<Rightarrow> (NamespacedName \<rightharpoonup> Service) \<Rightarrow> string \<Rightarrow> APIBackendRef \<Rightarrow> string list" where
  "refErrors resolver services routeNs ref =
     (case getServiceAndPortFromRef ref routeNs services of
        Inl err \<Rightarrow> [err]
      | Inr sp \<Rightarrow> (case snd (resolver (fst sp) (snd sp)) of None \<Rightarrow> [] | Some e \<Rightarrow> [e]))"

definition refWrites ::
  "ServiceResolver \<Rightarrow> (NamespacedName \<rightharpoonup> Service) \<Rightarrow> string \<Rightarrow> APIBackendRef
     \<Rightarrow> (string \<times> Endpoint list) list" where
  "refWrites resolver services routeNs ref =
     (case getServiceAndPortFromRef ref routeNs services of
        Inl err \<Rightarrow> []
      | Inr sp \<Rightarrow> [(backendName (fst sp) (snd sp), fst (resolver (fst sp) (snd sp)))])"

definition ruleGroup ::
  "(NamespacedName \<rightharpoonup> Service) \<Rightarrow> HTTPRoute \<Rightarrow> nat \<times> HTTPRouteRule \<Rightarrow> int \<times> BackendGroup" where
  "ruleGroup services src ir =
     (int (fst ir),
      \<lparr>bg_Source = \<lparr>nn_Namespace = hr_Namespace src, nn_Name = hr_Name src\<rparr>,
       bg_RuleIdx = int (fst ir),
       bg_Backends = map (refSlot services (hr_Namespace src)) (rule_BackendRefs (snd ir))\<rparr>)"

text \<open>Writing a list of entries into a Go map, one after the other.\<close>

definition writeAll :: "('k \<times> 'v) list \<Rightarrow> ('k \<times> 'v) list \<Rightarrow> ('k \<times> 'v) list" where
  "writeAll kvs al = fold (\<lambda>kv. AList.update (fst kv) (snd kv)) kvs al"


text \<open>The services and the resolver of \<^verbatim>\<open>TestResolveBackendRefs\<close>, and a route with three refs.\<close>

definition exampleServices :: "NamespacedName \<rightharpoonup> Service" where
  "exampleServices =
     [\<lparr>nn_Namespace = ''test'', nn_Name = ''svc1''\<rparr> \<mapsto> \<lparr>svc_Namespace = ''test'', svc_Name = ''svc1''\<rparr>,
      \<lparr>nn_Namespace = ''test'', nn_Name = ''error-svc4''\<rparr>
        \<mapsto> \<lparr>svc_Namespace = ''test'', svc_Name = ''error-svc4''\<rparr>]"

definition exampleResolver :: ServiceResolver where
  "exampleResolver svc port =
     (if svc_Name svc = ''error-svc4'' then ([], Some ''resolve error'')
      else ([\<lparr>ep_Address = svc_Name svc, ep_Port = port\<rparr>], None))"

definition exampleRef :: "string \<Rightarrow> 32 word \<Rightarrow> 32 word \<Rightarrow> APIBackendRef" where
  "exampleRef name port weight =
     \<lparr>ref_Kind = Some ''Service'', ref_Name = name, ref_Namespace = Some ''test'',
      ref_Port = Some port, ref_Weight = Some weight\<rparr>"


section \<open>Floating-point numbers (float64)\<close>

text \<open>
  \<^verbatim>\<open>percentOf\<close> and \<^verbatim>\<open>createSplitClientDistributions\<close> compute with \<^verbatim>\<open>float64\<close>, the
  IEEE 754 binary64 format. A finite value is a sign, a significand and an exponent:
  \<open>(-1)^neg * man * 2^exp\<close>; zero has a sign too. Every operation rounds its exact
  result to the nearest value with a significand of 53 bits, ties to the even significand.
  The operands of the code derive from 32-bit integers and the constant 100, divisors are
  never zero, so infinities, NaN, overflow and subnormal numbers do not occur and are left
  out of the model.
\<close>

record float64 =
  f_neg :: bool
  f_man :: nat
  f_exp :: int

fun bitlen :: "nat \<Rightarrow> nat" where
  "bitlen n = (if n = 0 then 0 else Suc (bitlen (n div 2)))"

declare bitlen.simps [simp del]

text \<open>Rounding a quotient of naturals to the nearest integer, ties to even.\<close>

definition roundHalfEven :: "nat \<Rightarrow> nat \<Rightarrow> nat" where
  "roundHalfEven n d =
     (let q = n div d; r = n mod d in
      if 2 * r < d then q
      else if d < 2 * r then q + 1
      else if even q then q else q + 1)"

text \<open>
  \<open>round_f64 neg n d\<close>: the float64 nearest to the exact value \<open>(-1)^neg * n / d\<close>. The
  exponent \<open>e\<close> is the one for which \<open>n / (d * 2^e)\<close> lies in \<open>[2^52, 2^53)\<close>.
\<close>

definition scaleNum :: "nat \<Rightarrow> int \<Rightarrow> nat" where
  "scaleNum n e = (if e < 0 then n * 2 ^ nat (- e) else n)"

definition scaleDen :: "nat \<Rightarrow> int \<Rightarrow> nat" where
  "scaleDen d e = (if e < 0 then d else d * 2 ^ nat e)"

definition round_f64 :: "bool \<Rightarrow> nat \<Rightarrow> nat \<Rightarrow> float64" where
  "round_f64 neg n d =
     (if n = 0 then \<lparr>f_neg = neg, f_man = 0, f_exp = 0\<rparr>
      else
        (let e0 = int (bitlen n) - int (bitlen d) - 53;
             e = (if scaleNum n e0 < 2 ^ 53 * scaleDen d e0 then e0 else e0 + 1) in
         \<lparr>f_neg = neg, f_man = roundHalfEven (scaleNum n e) (scaleDen d e), f_exp = e\<rparr>))"

text \<open>\<^verbatim>\<open>float64(w)\<close> for an \<^verbatim>\<open>int32\<close>, and the constant 100: both exact.\<close>

definition f64_of_int32 :: "32 word \<Rightarrow> float64" where
  "f64_of_int32 w = \<lparr>f_neg = sint w < 0, f_man = nat \<bar>sint w\<bar>, f_exp = 0\<rparr>"

definition f64_100 :: float64 where
  "f64_100 = \<lparr>f_neg = False, f_man = 100, f_exp = 0\<rparr>"

definition f64_mul :: "float64 \<Rightarrow> float64 \<Rightarrow> float64" where
  "f64_mul a b =
     round_f64 (f_neg a \<noteq> f_neg b)
       (scaleNum (f_man a * f_man b) (- (f_exp a + f_exp b)))
       (scaleDen 1 (- (f_exp a + f_exp b)))"

text \<open>Division by a value that is not zero.\<close>

definition f64_div :: "float64 \<Rightarrow> float64 \<Rightarrow> float64" where
  "f64_div a b =
     round_f64 (f_neg a \<noteq> f_neg b)
       (scaleNum (f_man a) (f_exp b - f_exp a))
       (scaleDen (f_man b) (f_exp b - f_exp a))"

text \<open>
  Subtraction: both operands as integer multiples of \<open>2^e\<close> for the smaller exponent
  \<open>e\<close>. An exact result of zero is \<open>+0\<close>, except for \<open>(-0) - (+0) = -0\<close>.
\<close>

definition f64_sub :: "float64 \<Rightarrow> float64 \<Rightarrow> float64" where
  "f64_sub a b =
     (let e = min (f_exp a) (f_exp b);
          x = (if f_neg a then - 1 else 1) * int (f_man a) * 2 ^ nat (f_exp a - e);
          y = (if f_neg b then - 1 else 1) * int (f_man b) * 2 ^ nat (f_exp b - e);
          d = x - y in
      if d = 0
      then \<lparr>f_neg = (f_man a = 0 \<and> f_man b = 0 \<and> f_neg a \<and> \<not> f_neg b), f_man = 0, f_exp = 0\<rparr>
      else round_f64 (d < 0) (scaleNum (nat \<bar>d\<bar>) (- e)) (scaleDen 1 (- e)))"

text \<open>\<^verbatim>\<open>math.Floor\<close>: the greatest integer below or equal; it is exact and keeps the sign of zero.\<close>

definition f64_floor :: "float64 \<Rightarrow> float64" where
  "f64_floor a =
     (if f_man a = 0 \<or> 0 \<le> f_exp a then a
      else if f_neg a
      then \<lparr>f_neg = True, f_man = (f_man a + 2 ^ nat (- f_exp a) - 1) div 2 ^ nat (- f_exp a), f_exp = 0\<rparr>
      else \<lparr>f_neg = False, f_man = f_man a div 2 ^ nat (- f_exp a), f_exp = 0\<rparr>)"

text \<open>
  \<^verbatim>\<open>fmt.Sprintf("%.2f", x)\<close>: the exact value rounded to hundredths, ties to even; the
  sign is printed for every negative value, also when the digits are all zero.
\<close>

definition twoDigits :: "nat \<Rightarrow> string" where
  "twoDigits n = [digit_char (n div 10), digit_char (n mod 10)]"

definition fmt_2f :: "float64 \<Rightarrow> string" where
  "fmt_2f a =
     (let h = roundHalfEven (scaleNum (f_man a * 100) (- f_exp a)) (scaleDen 1 (- f_exp a)) in
      (if f_neg a then ''-'' else []) @ string_of_nat (h div 100) @ ''.'' @ twoDigits (h mod 100))"

section \<open>Split clients (split\_clients.go)\<close>

definition percentOf :: "32 word \<Rightarrow> 32 word \<Rightarrow> float64" where
  "percentOf weight totalWeight =
     (let p = f64_div (f64_mul (f64_of_int32 weight) f64_100) (f64_of_int32 totalWeight) in
      f64_div (f64_floor (f64_mul p f64_100)) f64_100)"

definition getSplitClientValue :: "BackendRef \<Rightarrow> string" where
  "getSplitClientValue b = (if br_Valid b then br_Name b else invalidBackendRef)"

text \<open>
  The loop over all backends except the last one: its state is \<^verbatim>\<open>availablePercentage\<close>
  and the slice \<^verbatim>\<open>distributions\<close>.
\<close>

definition splitStep ::
  "32 word \<Rightarrow> BackendRef \<Rightarrow> float64 \<times> SplitClientDistribution list
     \<Rightarrow> float64 \<times> SplitClientDistribution list" where
  "splitStep totalWeight b st =
     (let percentage = percentOf (br_Weight b) totalWeight in
      (f64_sub (fst st) percentage,
       snd st @ [\<lparr>Percent = fmt_2f percentage, Value = getSplitClientValue b\<rparr>]))"

text \<open>The result \<open>None\<close> is the nil slice; \<^verbatim>\<open>totalWeight\<close> is an \<^verbatim>\<open>int32\<close> and wraps around.\<close>

definition createSplitClientDistributions :: "BackendGroup \<Rightarrow> SplitClientDistribution list option" where
  "createSplitClientDistributions backendGroup =
     (if \<not> NeedsSplit backendGroup then None
      else
        (let backends = bg_Backends backendGroup;
             totalWeight = fold (\<lambda>b t. t + br_Weight b) backends (0 :: 32 word) in
         if totalWeight = 0 then Some [\<lparr>Percent = ''100'', Value = invalidBackendRef\<rparr>]
         else
           (let st = fold (splitStep totalWeight) (butlast backends) (f64_100, []) in
            Some (snd st @ [\<lparr>Percent = fmt_2f (fst st), Value = getSplitClientValue (last backends)\<rparr>]))))"

definition createSplitClients :: "Lib \<Rightarrow> BackendGroup list \<Rightarrow> SplitClient list" where
  "createSplitClients lib backendGroups =
     concat (map (\<lambda>backendGroup.
                    case createSplitClientDistributions backendGroup of
                      None \<Rightarrow> []
                    | Some distributions \<Rightarrow>
                        [\<lparr>VariableName = convertStringToSafeVariableName lib (GroupName backendGroup),
                          Distributions = distributions\<rparr>])
                 backendGroups)"

text \<open>
  Two valid HTTPS listeners of one Gateway, in the shape of the case "two https listeners
  each with routes for different hostnames" of \<^verbatim>\<open>TestBuildConfiguration\<close>: the first has
  no hostname and a route for \<open>example.com\<close>, the second has the hostname \<open>example.com\<close>
  and no route.
\<close>

definition exampleSecretPath :: string where
  "exampleSecretPath = ''/etc/nginx/secrets/secret''"

definition exampleListener443 :: listener where
  "exampleListener443 =
     \<lparr>l_Source = \<lparr>ls_Hostname = None, ls_Protocol = HTTPSProtocolType\<rparr>, l_Valid = True,
      l_SecretPath = exampleSecretPath,
      l_Routes =
        [(\<lparr>nn_Namespace = ''test'', nn_Name = ''https-hr-5''\<rparr>,
          \<lparr>rt_Source = exampleRoute ''https-hr-5'' ''example.com'' [],
           rt_BackendRefs = newBackendRefs\<rparr>)],
      l_AcceptedHostnames = {''example.com''}\<rparr>"

definition exampleListener443WithHostname :: listener where
  "exampleListener443WithHostname =
     \<lparr>l_Source = \<lparr>ls_Hostname = Some ''example.com'', ls_Protocol = HTTPSProtocolType\<rparr>,
      l_Valid = True, l_SecretPath = exampleSecretPath, l_Routes = [], l_AcceptedHostnames = {}\<rparr>"

definition exampleGraphTwoListeners :: graph where
  "exampleGraphTwoListeners =
     \<lparr>g_GatewayClass = Some \<lparr>gc_Valid = True\<rparr>,
      g_Gateway =
        Some \<lparr>gw_Listeners =
                [(''listener-443-1'', exampleListener443),
                 (''listener-443-with-hostname'', exampleListener443WithHostname)]\<rparr>\<rparr>"


section \<open>Routes and match rules of a graph\<close>

text \<open>
  The routes that \<^verbatim>\<open>buildConfiguration\<close> reads: those attached to a valid listener. The
  backend group that a match rule of rule \<open>i\<close> of such a route receives, and the relation
  between a route and the match rules built from it. \<open>hprRules\<close> collects the match rules
  that a \<^verbatim>\<open>hostPathRules\<close> holds.
\<close>

definition validRoutes :: "(string \<times> listener) list \<Rightarrow> route set" where
  "validRoutes lsnrs =
     {r. \<exists>kl \<in> set lsnrs. l_Valid (snd kl) \<and> (\<exists>kr \<in> set (l_Routes (snd kl)). r = snd kr)}"

definition routeGroup :: "route \<Rightarrow> int \<Rightarrow> BackendGroup" where
  "routeGroup r i =
     (case map_of (brs_ByRule (rt_BackendRefs r)) i of None \<Rightarrow> zeroBackendGroup | Some g \<Rightarrow> g)"

definition fromRoute :: "route \<Rightarrow> MatchRule \<Rightarrow> bool" where
  "fromRoute r mr =
     (mr_Source mr = rt_Source r
      \<and> mr_BackendGroup mr = routeGroup r (mr_RuleIdx mr)
      \<and> (\<exists>rule. nth_opt (hr_Rules (rt_Source r)) (mr_RuleIdx mr) = Some rule
                \<and> mr_Filters mr = createFilters (rule_Filters rule)
                \<and> nth_opt (rule_Matches rule) (mr_MatchIdx mr) \<noteq> None))"

definition hprRules :: "hostPathRules \<Rightarrow> MatchRule set" where
  "hprRules hpr =
     {mr. \<exists>hr \<in> set (rulesPerHost hpr). \<exists>pr \<in> set (snd hr). mr \<in> set (pr_MatchRules (snd pr))}"

definition hprFrom :: "route set \<Rightarrow> hostPathRules \<Rightarrow> bool" where
  "hprFrom A hpr = (\<forall>mr \<in> hprRules hpr. \<exists>r \<in> A. fromRoute r mr)"

section \<open>A resolved example graph\<close>

text \<open>
  A graph whose route has been resolved: an HTTP listener with a route of two rules, the
  first with two backends (one of them a Service that does not exist), the second with
  one backend.
\<close>

definition exampleResolvedRoute0 :: route where
  "exampleResolvedRoute0 =
     \<lparr>rt_Source =
        \<lparr>hr_Namespace = ''test'', hr_Name = ''hr-1'', hr_CreationTimestamp = 0,
         hr_Hostnames = [''foo.example.com''],
         hr_Rules =
           [\<lparr>rule_Matches = [exampleMatch ''/''], rule_Filters = [],
             rule_BackendRefs = [exampleRef ''svc1'' 80 1, exampleRef ''dne'' 80 1]\<rparr>,
            \<lparr>rule_Matches = [exampleMatch ''/single''], rule_Filters = [],
             rule_BackendRefs = [exampleRef ''svc1'' 80 1]\<rparr>]\<rparr>,
      rt_BackendRefs = newBackendRefs\<rparr>"

definition exampleResolvedGraph :: graph where
  "exampleResolvedGraph =
     \<lparr>g_GatewayClass = Some \<lparr>gc_Valid = True\<rparr>,
      g_Gateway =
        Some \<lparr>gw_Listeners =
                [(''listener-80-1'',
                  \<lparr>l_Source = \<lparr>ls_Hostname = None, ls_Protocol = HTTPProtocolType\<rparr>,
                   l_Valid = True, l_SecretPath = [],
                   l_Routes =
                     [(\<lparr>nn_Namespace = ''test'', nn_Name = ''hr-1''\<rparr>,
                       resolveRoute exampleResolver exampleServices exampleResolvedRoute0)],
                   l_AcceptedHostnames = {''foo.example.com''}\<rparr>)]\<rparr>\<rparr>"

section \<open>Properties\<close>

subsection \<open>Reference validator\<close>

text \<open>
  C6. The reference validator rejects a BackendRef exactly when its Kind is set and is not
  "Service", or its Namespace is set and differs from the route's namespace, or its Port
  is absent; each case returns its own message (the first failing check decides), and a
  BackendRef that violates none of the conditions is accepted.
\<close>

theorem validateBackendRef_rejects_iff:
  "(validateBackendRef ref routeNs \<noteq> None) =
     ((\<exists>k. ref_Kind ref = Some k \<and> k \<noteq> ''Service'')
      \<or> (\<exists>ns. ref_Namespace ref = Some ns \<and> ns \<noteq> routeNs)
      \<or> ref_Port ref = None)
   \<and> (\<forall>k. ref_Kind ref = Some k \<and> k \<noteq> ''Service''
          \<longrightarrow> validateBackendRef ref routeNs = Some (''the Kind must be Service; got '' @ k))
   \<and> (\<forall>ns. (ref_Kind ref = None \<or> ref_Kind ref = Some ''Service'')
            \<and> ref_Namespace ref = Some ns \<and> ns \<noteq> routeNs
          \<longrightarrow> validateBackendRef ref routeNs =
                Some (''cross-namespace routing is not permitted; namespace '' @ ns
                      @ '' does not match the HTTPRoute namespace '' @ routeNs))
   \<and> ((ref_Kind ref = None \<or> ref_Kind ref = Some ''Service'')
        \<and> (ref_Namespace ref = None \<or> ref_Namespace ref = Some routeNs)
        \<and> ref_Port ref = None
          \<longrightarrow> validateBackendRef ref routeNs = Some ''port is missing'')
   \<and> ((ref_Kind ref = None \<or> ref_Kind ref = Some ''Service'')
        \<and> (ref_Namespace ref = None \<or> ref_Namespace ref = Some routeNs)
        \<and> ref_Port ref \<noteq> None
          \<longrightarrow> validateBackendRef ref routeNs = None)"
  by (cases "ref_Kind ref"; cases "ref_Namespace ref"; cases "ref_Port ref")
     (simp_all add: validateBackendRef_def)

theorem validateBackendRef_rejects_iff_witness:
  "validateBackendRef
     \<lparr>ref_Kind = Some ''NotService'', ref_Name = ''service1'', ref_Namespace = Some ''test'',
      ref_Port = Some 80, ref_Weight = Some 1\<rparr> ''test''
     = Some ''the Kind must be Service; got NotService''
   \<and> validateBackendRef
     \<lparr>ref_Kind = Some ''Service'', ref_Name = ''service1'', ref_Namespace = Some ''invalid'',
      ref_Port = Some 80, ref_Weight = Some 1\<rparr> ''test''
     = Some ''cross-namespace routing is not permitted; namespace invalid does not match the HTTPRoute namespace test''
   \<and> validateBackendRef
     \<lparr>ref_Kind = Some ''Service'', ref_Name = ''service1'', ref_Namespace = Some ''test'',
      ref_Port = None, ref_Weight = Some 1\<rparr> ''test''
     = Some ''port is missing''
   \<and> validateBackendRef
     \<lparr>ref_Kind = None, ref_Name = ''service1'', ref_Namespace = None,
      ref_Port = Some 80, ref_Weight = Some 1\<rparr> ''test''
     = None"
  using
    validateBackendRef_rejects_iff [of
      "\<lparr>ref_Kind = Some ''NotService'', ref_Name = ''service1'', ref_Namespace = Some ''test'',
        ref_Port = Some 80, ref_Weight = Some 1\<rparr>" "''test''"]
    validateBackendRef_rejects_iff [of
      "\<lparr>ref_Kind = Some ''Service'', ref_Name = ''service1'', ref_Namespace = Some ''invalid'',
        ref_Port = Some 80, ref_Weight = Some 1\<rparr>" "''test''"]
    validateBackendRef_rejects_iff [of
      "\<lparr>ref_Kind = Some ''Service'', ref_Name = ''service1'', ref_Namespace = Some ''test'',
        ref_Port = None, ref_Weight = Some 1\<rparr>" "''test''"]
    validateBackendRef_rejects_iff [of
      "\<lparr>ref_Kind = None, ref_Name = ''service1'', ref_Namespace = None,
        ref_Port = Some 80, ref_Weight = Some 1\<rparr>" "''test''"]
  by simp

subsection \<open>Upstream generation\<close>

text \<open>
  C3. Every Upstream passed to the config generator is emitted, at its own position and
  under its own name; the generated upstream has one server per endpoint, with the address
  "<address>:<port>", or, when the endpoint list is empty, exactly one server whose address
  is the 502 sentinel.
\<close>

theorem createUpstreams_servers:
  "length (createUpstreams ups) = length ups + 1
   \<and> (\<forall>i < length ups.
         hu_Name (createUpstreams ups ! i) = up_Name (ups ! i)
         \<and> (up_Endpoints (ups ! i) = []
              \<longrightarrow> hu_Servers (createUpstreams ups ! i) = [\<lparr>us_Address = nginx502Server\<rparr>])
         \<and> (up_Endpoints (ups ! i) \<noteq> []
              \<longrightarrow> length (hu_Servers (createUpstreams ups ! i)) = length (up_Endpoints (ups ! i))
                  \<and> (\<forall>j < length (up_Endpoints (ups ! i)).
                        us_Address (hu_Servers (createUpstreams ups ! i) ! j)
                          = ep_Address (up_Endpoints (ups ! i) ! j) @ '':''
                            @ itoa (sint (ep_Port (up_Endpoints (ups ! i) ! j))))))"
  by (simp add: createUpstreams_def createUpstream_def nth_append)

theorem createUpstreams_servers_witness:
  "us_Address
     (hu_Servers
        (createUpstreams
           [\<lparr>up_Name = ''test_foo_80'',
             up_Endpoints = [\<lparr>ep_Address = ''10.0.0.0'', ep_Port = 8080\<rparr>]\<rparr>,
            \<lparr>up_Name = ''test_bar_80'', up_Endpoints = []\<rparr>] ! 0) ! 0)
     = ''10.0.0.0:8080''
   \<and> hu_Servers
        (createUpstreams
           [\<lparr>up_Name = ''test_foo_80'',
             up_Endpoints = [\<lparr>ep_Address = ''10.0.0.0'', ep_Port = 8080\<rparr>]\<rparr>,
            \<lparr>up_Name = ''test_bar_80'', up_Endpoints = []\<rparr>] ! 1)
     = [\<lparr>us_Address = ''unix:/var/lib/nginx/nginx-502-server.sock''\<rparr>]"
proof -
  let ?ups = "[\<lparr>up_Name = ''test_foo_80'',
                 up_Endpoints = [\<lparr>ep_Address = ''10.0.0.0'', ep_Port = 8080\<rparr>]\<rparr>,
               \<lparr>up_Name = ''test_bar_80'', up_Endpoints = []\<rparr>]"
  note t = createUpstreams_servers [of ?ups, THEN conjunct2, rule_format]
  have a: "(0::nat) < length ?ups" and b: "(1::nat) < length ?ups"
    by simp_all
  have ne: "up_Endpoints (?ups ! 0) \<noteq> []"
    by simp
  have e: "up_Endpoints (?ups ! 1) = []"
    by simp
  have j: "(0::nat) < length (up_Endpoints (?ups ! 0))"
    by simp
  from t [OF a, THEN conjunct2, THEN conjunct2, rule_format, OF ne, THEN conjunct2, rule_format, OF j]
       t [OF b, THEN conjunct2, THEN conjunct1, rule_format, OF e]
  show ?thesis
    by (simp add: itoa_def string_of_nat.simps digit_char_def nginx502Server_def)
qed

subsection \<open>Facts about the server generator\<close>

lemmas example_defs = exampleLib_def exampleMatch_def exampleRedirect_def exampleRoute_def
  exampleGroup_def exampleMatchRule_def examplePathRule_def exampleServer_def

lemmas server_defs = createServer_def createPathRuleLocations_def createMatchRuleLocation_def
  GetMatch_def nth_opt_def isPathOnlyMatch_def emptyLocation_def createMatchLocation_def
  createPathForMatch_def createHTTPMatch_def listenerPortOf_def createProxyPass_def
  createProxyPassForVar_def invalidBackendRef_def Name_def NeedsSplit_def GroupName_def
  createReturnValForRedirectFilter_def StatusFound_def StatusNotFound_def
  HTTPRouteFilterRequestRedirect_def

lemma those_Some_nth:
  "those xs = Some ys \<Longrightarrow> length ys = length xs \<and> (\<forall>i < length xs. xs ! i = Some (ys ! i))"
proof (induction xs arbitrary: ys)
  case Nil
  then show ?case by simp
next
  case (Cons x xs)
  then obtain y zs where x: "x = Some y" and zs: "those xs = Some zs" and ys: "ys = y # zs"
    by (auto split: option.splits)
  from Cons.IH [OF zs] show ?case
    by (auto simp: x ys nth_Cons split: nat.splits)
qed

lemma createPathRuleLocations_nth:
  assumes "createPathRuleLocations lib lp rule = Some locs"
    and "k < length (pr_MatchRules rule)"
  shows "\<exists>loc hmo. createMatchRuleLocation lib lp rule (int k) (pr_MatchRules rule ! k) = Some (loc, hmo)
           \<and> loc \<in> set locs"
proof -
  let ?xs = "map (\<lambda>ir. createMatchRuleLocation lib lp rule (int (fst ir)) (snd ir))
                 (enumerate 0 (pr_MatchRules rule))"
  from assms(1) obtain res where res: "those ?xs = Some res"
    and locs: "set (map fst res) \<subseteq> set locs"
    by (auto simp: createPathRuleLocations_def Let_def split: option.splits)
  from those_Some_nth [OF res] assms(2)
  have len: "length res = length (pr_MatchRules rule)" and nth: "?xs ! k = Some (res ! k)"
    by auto
  from nth assms(2)
  have "createMatchRuleLocation lib lp rule (int k) (pr_MatchRules rule ! k) = Some (res ! k)"
    by (simp add: nth_enumerate_eq)
  moreover have "fst (res ! k) \<in> set locs"
    using locs len assms(2) by (auto simp: subset_iff)
  ultimately show ?thesis
    by (cases "res ! k") auto
qed

text \<open>
  Every match rule of a virtual server has its location among the locations of the
  generated server: the one the loop body computes for it.
\<close>

lemma createServer_location:
  assumes "createServer lib vs = Some s"
    and "rule \<in> set (vs_PathRules vs)"
    and "k < length (pr_MatchRules rule)"
  shows "\<exists>loc hmo. createMatchRuleLocation lib (listenerPortOf vs) rule (int k) (pr_MatchRules rule ! k)
                     = Some (loc, hmo)
           \<and> loc \<in> set (srv_Locations s)"
proof -
  from assms(2) have ne: "length (vs_PathRules vs) \<noteq> 0"
    by auto
  let ?xs = "map (createPathRuleLocations lib (listenerPortOf vs)) (vs_PathRules vs)"
  from assms(1) ne obtain locss where locss: "those ?xs = Some locss"
    and s: "srv_Locations s = concat locss"
    by (auto simp: createServer_def Let_def split: option.splits if_splits)
  from assms(2) obtain p where p: "p < length (vs_PathRules vs)" and rule: "vs_PathRules vs ! p = rule"
    by (auto simp: in_set_conv_nth)
  from those_Some_nth [OF locss] p rule
  have len: "length locss = length (vs_PathRules vs)"
    and nth: "createPathRuleLocations lib (listenerPortOf vs) rule = Some (locss ! p)"
    by auto
  from createPathRuleLocations_nth [OF nth assms(3)]
  obtain loc hmo where
    "createMatchRuleLocation lib (listenerPortOf vs) rule (int k) (pr_MatchRules rule ! k) = Some (loc, hmo)"
    and "loc \<in> set (locss ! p)"
    by blast
  moreover have "locss ! p \<in> set locss"
    using p len by simp
  then have "set (locss ! p) \<subseteq> set (concat locss)"
    by auto
  ultimately show ?thesis
    using s by auto
qed

lemma createMatchRuleLocation_path:
  assumes "createMatchRuleLocation lib lp rule k r = Some (loc, hmo)"
  shows "loc_Path loc = pr_Path rule \<or> loc_Path loc = createPathForMatch (pr_Path rule) k"
  using assms
  by (auto simp: createMatchRuleLocation_def Let_def emptyLocation_def createMatchLocation_def
           split: option.splits if_splits)

lemma createMatchRuleLocation_redirect:
  assumes "createMatchRuleLocation lib lp rule k r = Some (loc, hmo)"
    and "f_RequestRedirect (mr_Filters r) = Some f"
  shows "loc_Return loc = createReturnValForRedirectFilter (Some f) lp \<and> loc_ProxyPass loc = []"
  using assms
  by (auto simp: createMatchRuleLocation_def Let_def emptyLocation_def createMatchLocation_def
           split: option.splits if_splits)

lemma createMatchRuleLocation_proxy:
  assumes "createMatchRuleLocation lib lp rule k r = Some (loc, hmo)"
    and "f_RequestRedirect (mr_Filters r) = None"
  shows "loc_Return loc = None
         \<and> loc_ProxyPass loc =
             (if NeedsSplit (mr_BackendGroup r)
              then createProxyPassForVar lib
                     (if Name (mr_BackendGroup r) = [] then invalidBackendRef else Name (mr_BackendGroup r))
              else createProxyPass
                     (if Name (mr_BackendGroup r) = [] then invalidBackendRef else Name (mr_BackendGroup r)))"
  using assms
  by (auto simp: createMatchRuleLocation_def Let_def emptyLocation_def createMatchLocation_def
           split: option.splits if_splits)

text \<open>A match rule without a redirect whose group has no name is proxied to the sentinel.\<close>

lemma createServer_unnamed_group:
  assumes "createServer lib vs = Some s"
    and "rule \<in> set (vs_PathRules vs)"
    and "k < length (pr_MatchRules rule)"
    and "f_RequestRedirect (mr_Filters (pr_MatchRules rule ! k)) = None"
    and "Name (mr_BackendGroup (pr_MatchRules rule ! k)) = []"
  shows "\<exists>loc \<in> set (srv_Locations s).
           (loc_Path loc = pr_Path rule \<or> loc_Path loc = createPathForMatch (pr_Path rule) (int k))
           \<and> loc_Return loc = None
           \<and> loc_ProxyPass loc = createProxyPass invalidBackendRef"
proof -
  from createServer_location [OF assms(1-3)] obtain loc hmo where
    c: "createMatchRuleLocation lib (listenerPortOf vs) rule (int k) (pr_MatchRules rule ! k) = Some (loc, hmo)"
    and m: "loc \<in> set (srv_Locations s)"
    by blast
  have "\<not> NeedsSplit (mr_BackendGroup (pr_MatchRules rule ! k))"
    using assms(5) by (auto simp: Name_def NeedsSplit_def GroupName_def split: list.splits)
  with createMatchRuleLocation_proxy [OF c assms(4)] assms(5) createMatchRuleLocation_path [OF c] m
  show ?thesis
    by auto
qed

lemma exampleServer_zero_weight:
  "createServer exampleLib
     (exampleServer [] [\<lparr>br_Name = ''backend1'', br_Valid = True, br_Weight = 0\<rparr>])
   = Some \<lparr>srv_SSL = None, srv_ServerName = ''foo.example.com'',
           srv_Locations =
             [\<lparr>loc_Return = None, loc_Path = ''/'', loc_ProxyPass = ''http://invalid-backend-ref'',
               loc_HTTPMatchVar = [], loc_Internal = False\<rparr>],
           srv_IsDefaultHTTP = False, srv_IsDefaultSSL = False\<rparr>"
  by (simp add: example_defs server_defs enumerate_eq_zip)

lemma exampleServer_redirect:
  "createServer exampleLib
     (exampleServer [\<lparr>flt_Type = ''RequestRedirect'', flt_RequestRedirect = Some exampleRedirect\<rparr>] [])
   = Some \<lparr>srv_SSL = None, srv_ServerName = ''foo.example.com'',
           srv_Locations =
             [\<lparr>loc_Return = Some \<lparr>ret_Code = 302,
                                   ret_URL = ''$scheme://foo.example.com:80$request_uri''\<rparr>,
               loc_Path = ''/'', loc_ProxyPass = [], loc_HTTPMatchVar = [], loc_Internal = False\<rparr>],
           srv_IsDefaultHTTP = False, srv_IsDefaultSSL = False\<rparr>"
  by (simp add: example_defs server_defs enumerate_eq_zip itoa_def string_of_nat.simps digit_char_def)

subsection \<open>Names of backend groups\<close>

text \<open>
  C7, as stated: the name of a BackendGroup with exactly one backend is that backend's
  upstream name. It is not: a single valid backend of weight 0 leaves the group without a
  name (the case "one valid backend with zero weight" of the repository's own test).
\<close>

theorem Name_single_backend_counterexample:
  "Name \<lparr>bg_Source = \<lparr>nn_Namespace = ''test'', nn_Name = ''hr''\<rparr>, bg_RuleIdx = 0,
         bg_Backends = [\<lparr>br_Name = ''backend1'', br_Valid = True, br_Weight = 0\<rparr>]\<rparr>
   \<noteq> ''backend1''"
  by (simp add: Name_def)

text \<open>
  C7, amended. The name of a BackendGroup is "<ns>_<route>_rule<idx>" when it contains more
  than one backend; the single backend's upstream name when it contains exactly one
  backend that is valid and has a positive weight; and empty otherwise (no backend, or a
  single backend that is invalid or has a weight of zero or less). A match rule without
  redirect whose group has the empty name is proxied to the invalid-backend sentinel.
\<close>

theorem Name_cases:
  "(1 < length (bg_Backends bg)
      \<longrightarrow> Name bg = nn_Namespace (bg_Source bg) @ ''_'' @ nn_Name (bg_Source bg) @ ''_rule''
                    @ itoa (bg_RuleIdx bg))
   \<and> (\<forall>b. bg_Backends bg = [b] \<and> br_Valid b \<and> 0 < sint (br_Weight b) \<longrightarrow> Name bg = br_Name b)
   \<and> (bg_Backends bg = []
       \<or> (\<exists>b. bg_Backends bg = [b] \<and> (\<not> br_Valid b \<or> sint (br_Weight b) \<le> 0))
      \<longrightarrow> Name bg = [])
   \<and> (\<forall>lib vs s rule k.
         createServer lib vs = Some s \<and> rule \<in> set (vs_PathRules vs)
         \<and> k < length (pr_MatchRules rule)
         \<and> mr_BackendGroup (pr_MatchRules rule ! k) = bg
         \<and> f_RequestRedirect (mr_Filters (pr_MatchRules rule ! k)) = None
         \<and> Name bg = []
         \<longrightarrow> (\<exists>loc \<in> set (srv_Locations s).
                 (loc_Path loc = pr_Path rule
                  \<or> loc_Path loc = createPathForMatch (pr_Path rule) (int k))
                 \<and> loc_ProxyPass loc = createProxyPass invalidBackendRef))"
proof (intro conjI allI impI)
  assume "1 < length (bg_Backends bg)"
  then show "Name bg = nn_Namespace (bg_Source bg) @ ''_'' @ nn_Name (bg_Source bg) @ ''_rule''
                       @ itoa (bg_RuleIdx bg)"
    by (auto simp: Name_def GroupName_def split: list.splits)
next
  fix b
  assume "bg_Backends bg = [b] \<and> br_Valid b \<and> 0 < sint (br_Weight b)"
  then show "Name bg = br_Name b"
    by (simp add: Name_def)
next
  assume "bg_Backends bg = []
          \<or> (\<exists>b. bg_Backends bg = [b] \<and> (\<not> br_Valid b \<or> sint (br_Weight b) \<le> 0))"
  then show "Name bg = []"
    by (auto simp: Name_def)
next
  fix lib vs s rule k
  assume a: "createServer lib vs = Some s \<and> rule \<in> set (vs_PathRules vs)
             \<and> k < length (pr_MatchRules rule)
             \<and> mr_BackendGroup (pr_MatchRules rule ! k) = bg
             \<and> f_RequestRedirect (mr_Filters (pr_MatchRules rule ! k)) = None
             \<and> Name bg = []"
  then have "\<exists>loc \<in> set (srv_Locations s).
               (loc_Path loc = pr_Path rule \<or> loc_Path loc = createPathForMatch (pr_Path rule) (int k))
               \<and> loc_Return loc = None
               \<and> loc_ProxyPass loc = createProxyPass invalidBackendRef"
    by (intro createServer_unnamed_group) auto
  then show "\<exists>loc \<in> set (srv_Locations s).
               (loc_Path loc = pr_Path rule \<or> loc_Path loc = createPathForMatch (pr_Path rule) (int k))
               \<and> loc_ProxyPass loc = createProxyPass invalidBackendRef"
    by blast
qed

theorem Name_cases_witness:
  "Name (exampleGroup ''hr''
           [\<lparr>br_Name = ''backend1'', br_Valid = True, br_Weight = 1\<rparr>,
            \<lparr>br_Name = ''backend2'', br_Valid = False, br_Weight = 1\<rparr>]) = ''test_hr_rule0''
   \<and> Name (exampleGroup ''hr'' [\<lparr>br_Name = ''backend1'', br_Valid = True, br_Weight = 1\<rparr>]) = ''backend1''
   \<and> Name (exampleGroup ''hr'' [\<lparr>br_Name = ''backend1'', br_Valid = False, br_Weight = 1\<rparr>]) = []
   \<and> Name (exampleGroup ''hr'' []) = []
   \<and> (\<exists>loc \<in> set (srv_Locations (the (createServer exampleLib
                       (exampleServer [] [\<lparr>br_Name = ''backend1'', br_Valid = True, br_Weight = 0\<rparr>])))).
         loc_ProxyPass loc = ''http://invalid-backend-ref'')"
proof -
  let ?b1 = "\<lparr>br_Name = ''backend1'', br_Valid = True, br_Weight = 1\<rparr>"
  let ?b2 = "\<lparr>br_Name = ''backend2'', br_Valid = False, br_Weight = 1\<rparr>"
  let ?b3 = "\<lparr>br_Name = ''backend1'', br_Valid = False, br_Weight = 1\<rparr>"
  let ?b0 = "\<lparr>br_Name = ''backend1'', br_Valid = True, br_Weight = 0\<rparr>"
  let ?vs = "exampleServer [] [?b0]"
  have "1 < length (bg_Backends (exampleGroup ''hr'' [?b1, ?b2]))"
    by (simp add: exampleGroup_def)
  from Name_cases [of "exampleGroup ''hr'' [?b1, ?b2]", THEN conjunct1, rule_format, OF this]
  have 1: "Name (exampleGroup ''hr'' [?b1, ?b2]) = ''test_hr_rule0''"
    by (simp add: exampleGroup_def itoa_def string_of_nat.simps digit_char_def)
  have "bg_Backends (exampleGroup ''hr'' [?b1]) = [?b1] \<and> br_Valid ?b1 \<and> 0 < sint (br_Weight ?b1)"
    by (simp add: exampleGroup_def)
  from Name_cases [of "exampleGroup ''hr'' [?b1]", THEN conjunct2, THEN conjunct1, rule_format, OF this]
  have 2: "Name (exampleGroup ''hr'' [?b1]) = ''backend1''"
    by simp
  have "bg_Backends (exampleGroup ''hr'' [?b3]) = []
        \<or> (\<exists>b. bg_Backends (exampleGroup ''hr'' [?b3]) = [b] \<and> (\<not> br_Valid b \<or> sint (br_Weight b) \<le> 0))"
    by (simp add: exampleGroup_def)
  from Name_cases [of "exampleGroup ''hr'' [?b3]", THEN conjunct2, THEN conjunct2, THEN conjunct1,
                   rule_format, OF this]
  have 3: "Name (exampleGroup ''hr'' [?b3]) = []" .
  have "bg_Backends (exampleGroup ''hr'' []) = []
        \<or> (\<exists>b. bg_Backends (exampleGroup ''hr'' []) = [b] \<and> (\<not> br_Valid b \<or> sint (br_Weight b) \<le> 0))"
    by (simp add: exampleGroup_def)
  from Name_cases [of "exampleGroup ''hr'' []", THEN conjunct2, THEN conjunct2, THEN conjunct1,
                   rule_format, OF this]
  have 4: "Name (exampleGroup ''hr'' []) = []" .
  have n0: "Name (exampleGroup ''hr-1'' [?b0]) = []"
    by (rule Name_cases [THEN conjunct2, THEN conjunct2, THEN conjunct1, rule_format])
       (simp add: exampleGroup_def)
  have "createServer exampleLib ?vs = Some (the (createServer exampleLib ?vs))
        \<and> examplePathRule [] [?b0] \<in> set (vs_PathRules ?vs)
        \<and> 0 < length (pr_MatchRules (examplePathRule [] [?b0]))
        \<and> mr_BackendGroup (pr_MatchRules (examplePathRule [] [?b0]) ! 0) = exampleGroup ''hr-1'' [?b0]
        \<and> f_RequestRedirect (mr_Filters (pr_MatchRules (examplePathRule [] [?b0]) ! 0)) = None
        \<and> Name (exampleGroup ''hr-1'' [?b0]) = []"
    by (simp add: exampleServer_zero_weight n0)
       (simp add: exampleServer_def examplePathRule_def exampleMatchRule_def)
  from Name_cases [of "exampleGroup ''hr-1'' [?b0]", THEN conjunct2, THEN conjunct2, THEN conjunct2,
                   rule_format, OF this]
  have 5: "\<exists>loc \<in> set (srv_Locations (the (createServer exampleLib ?vs))).
             loc_ProxyPass loc = ''http://invalid-backend-ref''"
    by (auto simp: createProxyPass_def invalidBackendRef_def)
  from 1 2 3 4 5 show ?thesis
    by blast
qed

text \<open>
  C10. A BackendGroup with exactly one backend that is valid but has a weight of zero or
  less has the empty name, so the config generator proxies a match rule of that group
  (one without a redirect filter) to the invalid-backend sentinel.
\<close>

theorem Name_nonpositive_weight:
  assumes "bg_Backends bg = [b]" and "br_Valid b" and "sint (br_Weight b) \<le> 0"
  shows "Name bg = []
         \<and> (\<forall>lib vs s rule k.
               createServer lib vs = Some s \<and> rule \<in> set (vs_PathRules vs)
               \<and> k < length (pr_MatchRules rule)
               \<and> mr_BackendGroup (pr_MatchRules rule ! k) = bg
               \<and> f_RequestRedirect (mr_Filters (pr_MatchRules rule ! k)) = None
               \<longrightarrow> (\<exists>loc \<in> set (srv_Locations s).
                       (loc_Path loc = pr_Path rule
                        \<or> loc_Path loc = createPathForMatch (pr_Path rule) (int k))
                       \<and> loc_Return loc = None
                       \<and> loc_ProxyPass loc = ''http://'' @ invalidBackendRef))"
proof -
  have n: "Name bg = []"
    using assms by (simp add: Name_def)
  show ?thesis
  proof (intro conjI allI impI)
    show "Name bg = []" by (rule n)
  next
    fix lib vs s rule k
    assume "createServer lib vs = Some s \<and> rule \<in> set (vs_PathRules vs)
            \<and> k < length (pr_MatchRules rule)
            \<and> mr_BackendGroup (pr_MatchRules rule ! k) = bg
            \<and> f_RequestRedirect (mr_Filters (pr_MatchRules rule ! k)) = None"
    then have "\<exists>loc \<in> set (srv_Locations s).
                 (loc_Path loc = pr_Path rule \<or> loc_Path loc = createPathForMatch (pr_Path rule) (int k))
                 \<and> loc_Return loc = None
                 \<and> loc_ProxyPass loc = createProxyPass invalidBackendRef"
      using n by (intro createServer_unnamed_group) auto
    then show "\<exists>loc \<in> set (srv_Locations s).
                 (loc_Path loc = pr_Path rule \<or> loc_Path loc = createPathForMatch (pr_Path rule) (int k))
                 \<and> loc_Return loc = None
                 \<and> loc_ProxyPass loc = ''http://'' @ invalidBackendRef"
      by (simp add: createProxyPass_def)
  qed
qed

theorem Name_nonpositive_weight_witness:
  "Name (exampleGroup ''hr-1'' [\<lparr>br_Name = ''backend1'', br_Valid = True, br_Weight = - 5\<rparr>]) = []
   \<and> (\<exists>loc \<in> set (srv_Locations (the (createServer exampleLib
                       (exampleServer [] [\<lparr>br_Name = ''backend1'', br_Valid = True, br_Weight = 0\<rparr>])))).
         loc_Return loc = None \<and> loc_ProxyPass loc = ''http://invalid-backend-ref'')"
proof -
  let ?b0 = "\<lparr>br_Name = ''backend1'', br_Valid = True, br_Weight = 0\<rparr>"
  let ?b5 = "\<lparr>br_Name = ''backend1'', br_Valid = True, br_Weight = - 5\<rparr>"
  let ?vs = "exampleServer [] [?b0]"
  have h5: "bg_Backends (exampleGroup ''hr-1'' [?b5]) = [?b5]" "br_Valid ?b5" "sint (br_Weight ?b5) \<le> 0"
    by (simp_all add: exampleGroup_def)
  have h0: "bg_Backends (exampleGroup ''hr-1'' [?b0]) = [?b0]" "br_Valid ?b0" "sint (br_Weight ?b0) \<le> 0"
    by (simp_all add: exampleGroup_def)
  have c: "createServer exampleLib ?vs = Some (the (createServer exampleLib ?vs))
        \<and> examplePathRule [] [?b0] \<in> set (vs_PathRules ?vs)
        \<and> 0 < length (pr_MatchRules (examplePathRule [] [?b0]))
        \<and> mr_BackendGroup (pr_MatchRules (examplePathRule [] [?b0]) ! 0) = exampleGroup ''hr-1'' [?b0]
        \<and> f_RequestRedirect (mr_Filters (pr_MatchRules (examplePathRule [] [?b0]) ! 0)) = None"
    by (simp add: exampleServer_zero_weight)
       (simp add: exampleServer_def examplePathRule_def exampleMatchRule_def)
  from Name_nonpositive_weight [OF h5, THEN conjunct1]
       Name_nonpositive_weight [OF h0, THEN conjunct2, rule_format, OF c]
  show ?thesis
    by (auto simp: invalidBackendRef_def)
qed

subsection \<open>Redirect filters\<close>

lemma createFilters_first:
  "createFilters fs =
     \<lparr>f_RequestRedirect =
        (case find (\<lambda>f. flt_Type f = HTTPRouteFilterRequestRedirect) fs of
           None \<Rightarrow> None
         | Some f \<Rightarrow> flt_RequestRedirect f)\<rparr>"
  by (induction fs) simp_all

lemma exampleServer_nil_redirect:
  "createServer exampleLib
     (exampleServer
        [\<lparr>flt_Type = ''RequestRedirect'', flt_RequestRedirect = None\<rparr>,
         \<lparr>flt_Type = ''RequestRedirect'', flt_RequestRedirect = Some exampleRedirect\<rparr>] [])
   = Some \<lparr>srv_SSL = None, srv_ServerName = ''foo.example.com'',
           srv_Locations =
             [\<lparr>loc_Return = None, loc_Path = ''/'', loc_ProxyPass = ''http://invalid-backend-ref'',
               loc_HTTPMatchVar = [], loc_Internal = False\<rparr>],
           srv_IsDefaultHTTP = False, srv_IsDefaultSSL = False\<rparr>"
  by (simp add: example_defs server_defs enumerate_eq_zip)

text \<open>
  C8, as stated: when a RequestRedirect filter is present in the rule's filter list, the
  generated location carries a return directive and no proxy_pass. It does not when the
  first filter of type RequestRedirect has no \<^verbatim>\<open>RequestRedirect\<close> field (a nil pointer):
  \<^verbatim>\<open>createFilters\<close> returns at that filter with a nil redirect, the complete filter that
  follows is ignored, and \<^verbatim>\<open>createServer\<close> proxies the location, here to the
  invalid-backend sentinel, without a return directive.
\<close>

theorem redirect_filter_nil_field_counterexample:
  "f_RequestRedirect
     (createFilters
        [\<lparr>flt_Type = ''RequestRedirect'', flt_RequestRedirect = None\<rparr>,
         \<lparr>flt_Type = ''RequestRedirect'', flt_RequestRedirect = Some exampleRedirect\<rparr>]) = None
   \<and> map (\<lambda>loc. (loc_Return loc, loc_ProxyPass loc))
         (srv_Locations (the (createServer exampleLib
            (exampleServer
               [\<lparr>flt_Type = ''RequestRedirect'', flt_RequestRedirect = None\<rparr>,
                \<lparr>flt_Type = ''RequestRedirect'', flt_RequestRedirect = Some exampleRedirect\<rparr>] []))))
       = [(None, ''http://invalid-backend-ref'')]"
  by (simp add: exampleServer_nil_redirect)

text \<open>
  C8, amended. Only the first filter of type RequestRedirect of a rule's filter list is
  considered: the filters before it are of other types, whatever follows it is ignored,
  and its \<^verbatim>\<open>RequestRedirect\<close> field, set or not, is the redirect of the rule. When the
  redirect of a match rule is set, its location in the generated server has a return
  directive with the URL
  "<scheme-or-$scheme>://<hostname-or-$host>:<port-or-listenerPort>$request_uri" and the
  given status code, 302 when none is given, where the listener port is 80 for a server
  without SSL and 443 for a server with SSL; the location has no proxy_pass. When the
  redirect is not set (no filter of type RequestRedirect, or the first one has no
  \<^verbatim>\<open>RequestRedirect\<close> field), the location has no return directive and is proxied to
  its backend group.
\<close>

theorem redirect_filter_first_and_return:
  "(\<forall>pre f post.
      fs = pre @ f # post \<and> flt_Type f = HTTPRouteFilterRequestRedirect
      \<and> (\<forall>g \<in> set pre. flt_Type g \<noteq> HTTPRouteFilterRequestRedirect)
      \<longrightarrow> f_RequestRedirect (createFilters fs) = flt_RequestRedirect f)
   \<and> ((\<forall>g \<in> set fs. flt_Type g \<noteq> HTTPRouteFilterRequestRedirect)
      \<longrightarrow> f_RequestRedirect (createFilters fs) = None)
   \<and> (\<forall>lib vs s rule k rf.
         createServer lib vs = Some s \<and> rule \<in> set (vs_PathRules vs)
         \<and> k < length (pr_MatchRules rule)
         \<and> f_RequestRedirect (mr_Filters (pr_MatchRules rule ! k)) = Some rf
         \<longrightarrow> (\<exists>loc \<in> set (srv_Locations s).
                 (loc_Path loc = pr_Path rule
                  \<or> loc_Path loc = createPathForMatch (pr_Path rule) (int k))
                 \<and> loc_ProxyPass loc = []
                 \<and> loc_Return loc =
                     Some \<lparr>ret_Code = (case rf_StatusCode rf of None \<Rightarrow> 302 | Some c \<Rightarrow> c),
                           ret_URL =
                             (case rf_Scheme rf of None \<Rightarrow> ''$scheme'' | Some sc \<Rightarrow> sc) @ ''://''
                             @ (case rf_Hostname rf of None \<Rightarrow> ''$host'' | Some h \<Rightarrow> h) @ '':''
                             @ itoa (case rf_Port rf of
                                       None \<Rightarrow> (if vs_SSL vs = None then 80 else 443)
                                     | Some p \<Rightarrow> sint p)
                             @ ''$request_uri''\<rparr>))
   \<and> (\<forall>lib vs s rule k.
         createServer lib vs = Some s \<and> rule \<in> set (vs_PathRules vs)
         \<and> k < length (pr_MatchRules rule)
         \<and> f_RequestRedirect (mr_Filters (pr_MatchRules rule ! k)) = None
         \<longrightarrow> (\<exists>loc \<in> set (srv_Locations s).
                 (loc_Path loc = pr_Path rule
                  \<or> loc_Path loc = createPathForMatch (pr_Path rule) (int k))
                 \<and> loc_Return loc = None
                 \<and> loc_ProxyPass loc =
                     (if NeedsSplit (mr_BackendGroup (pr_MatchRules rule ! k))
                      then createProxyPassForVar lib
                             (if Name (mr_BackendGroup (pr_MatchRules rule ! k)) = []
                              then invalidBackendRef
                              else Name (mr_BackendGroup (pr_MatchRules rule ! k)))
                      else createProxyPass
                             (if Name (mr_BackendGroup (pr_MatchRules rule ! k)) = []
                              then invalidBackendRef
                              else Name (mr_BackendGroup (pr_MatchRules rule ! k))))))"
proof (intro conjI allI impI)
  fix pre f post
  assume a: "fs = pre @ f # post \<and> flt_Type f = HTTPRouteFilterRequestRedirect
             \<and> (\<forall>g \<in> set pre. flt_Type g \<noteq> HTTPRouteFilterRequestRedirect)"
  then have "find (\<lambda>f. flt_Type f = HTTPRouteFilterRequestRedirect) fs = Some f"
    by (auto simp: find_Some_iff nth_append
             intro!: exI [of _ "length pre"])
  then show "f_RequestRedirect (createFilters fs) = flt_RequestRedirect f"
    by (simp add: createFilters_first)
next
  assume "\<forall>g \<in> set fs. flt_Type g \<noteq> HTTPRouteFilterRequestRedirect"
  then have "find (\<lambda>f. flt_Type f = HTTPRouteFilterRequestRedirect) fs = None"
    by (simp add: find_None_iff)
  then show "f_RequestRedirect (createFilters fs) = None"
    by (simp add: createFilters_first)
next
  fix lib vs s rule k rf
  assume a: "createServer lib vs = Some s \<and> rule \<in> set (vs_PathRules vs)
             \<and> k < length (pr_MatchRules rule)
             \<and> f_RequestRedirect (mr_Filters (pr_MatchRules rule ! k)) = Some rf"
  then obtain loc hmo where
    c: "createMatchRuleLocation lib (listenerPortOf vs) rule (int k) (pr_MatchRules rule ! k)
          = Some (loc, hmo)"
    and m: "loc \<in> set (srv_Locations s)"
    using createServer_location [of lib vs s rule k] by blast
  from a have rf: "f_RequestRedirect (mr_Filters (pr_MatchRules rule ! k)) = Some rf"
    by simp
  have "loc_Return loc =
          Some \<lparr>ret_Code = (case rf_StatusCode rf of None \<Rightarrow> 302 | Some c \<Rightarrow> c),
                ret_URL =
                  (case rf_Scheme rf of None \<Rightarrow> ''$scheme'' | Some sc \<Rightarrow> sc) @ ''://''
                  @ (case rf_Hostname rf of None \<Rightarrow> ''$host'' | Some h \<Rightarrow> h) @ '':''
                  @ itoa (case rf_Port rf of
                            None \<Rightarrow> (if vs_SSL vs = None then 80 else 443)
                          | Some p \<Rightarrow> sint p)
                  @ ''$request_uri''\<rparr>"
    using createMatchRuleLocation_redirect [OF c rf]
    by (auto simp: createReturnValForRedirectFilter_def StatusFound_def listenerPortOf_def Let_def
             split: option.splits)
  with createMatchRuleLocation_redirect [OF c rf] createMatchRuleLocation_path [OF c] m
  show "\<exists>loc \<in> set (srv_Locations s).
          (loc_Path loc = pr_Path rule \<or> loc_Path loc = createPathForMatch (pr_Path rule) (int k))
          \<and> loc_ProxyPass loc = []
          \<and> loc_Return loc =
              Some \<lparr>ret_Code = (case rf_StatusCode rf of None \<Rightarrow> 302 | Some c \<Rightarrow> c),
                    ret_URL =
                      (case rf_Scheme rf of None \<Rightarrow> ''$scheme'' | Some sc \<Rightarrow> sc) @ ''://''
                      @ (case rf_Hostname rf of None \<Rightarrow> ''$host'' | Some h \<Rightarrow> h) @ '':''
                      @ itoa (case rf_Port rf of
                                None \<Rightarrow> (if vs_SSL vs = None then 80 else 443)
                              | Some p \<Rightarrow> sint p)
                      @ ''$request_uri''\<rparr>"
    by blast
next
  fix lib vs s rule k
  assume a: "createServer lib vs = Some s \<and> rule \<in> set (vs_PathRules vs)
             \<and> k < length (pr_MatchRules rule)
             \<and> f_RequestRedirect (mr_Filters (pr_MatchRules rule ! k)) = None"
  let ?bg = "mr_BackendGroup (pr_MatchRules rule ! k)"
  from a obtain loc hmo where
    c: "createMatchRuleLocation lib (listenerPortOf vs) rule (int k) (pr_MatchRules rule ! k)
          = Some (loc, hmo)"
    and m: "loc \<in> set (srv_Locations s)"
    using createServer_location [of lib vs s rule k] by blast
  from a have n: "f_RequestRedirect (mr_Filters (pr_MatchRules rule ! k)) = None"
    by simp
  from createMatchRuleLocation_proxy [OF c n] createMatchRuleLocation_path [OF c] m
  show "\<exists>loc \<in> set (srv_Locations s).
          (loc_Path loc = pr_Path rule \<or> loc_Path loc = createPathForMatch (pr_Path rule) (int k))
          \<and> loc_Return loc = None
          \<and> loc_ProxyPass loc =
              (if NeedsSplit ?bg
               then createProxyPassForVar lib (if Name ?bg = [] then invalidBackendRef else Name ?bg)
               else createProxyPass (if Name ?bg = [] then invalidBackendRef else Name ?bg))"
    by blast
qed

theorem redirect_filter_first_and_return_witness:
  "f_RequestRedirect
     (createFilters
        [\<lparr>flt_Type = ''RequestHeaderModifier'', flt_RequestRedirect = None\<rparr>,
         \<lparr>flt_Type = ''RequestRedirect'', flt_RequestRedirect = Some exampleRedirect\<rparr>,
         \<lparr>flt_Type = ''RequestRedirect'',
          flt_RequestRedirect = Some (exampleRedirect\<lparr>rf_Hostname := Some ''bar.example.com''\<rparr>)\<rparr>])
     = Some exampleRedirect
   \<and> f_RequestRedirect
       (createFilters [\<lparr>flt_Type = ''RequestHeaderModifier'', flt_RequestRedirect = None\<rparr>]) = None
   \<and> (\<exists>loc \<in> set (srv_Locations (the (createServer exampleLib
                       (exampleServer
                          [\<lparr>flt_Type = ''RequestRedirect'',
                            flt_RequestRedirect = Some exampleRedirect\<rparr>] [])))).
         loc_ProxyPass loc = []
         \<and> loc_Return loc =
             Some \<lparr>ret_Code = 302, ret_URL = ''$scheme://foo.example.com:80$request_uri''\<rparr>)
   \<and> (\<exists>loc \<in> set (srv_Locations (the (createServer exampleLib
                       (exampleServer
                          [\<lparr>flt_Type = ''RequestRedirect'', flt_RequestRedirect = None\<rparr>,
                           \<lparr>flt_Type = ''RequestRedirect'',
                            flt_RequestRedirect = Some exampleRedirect\<rparr>] [])))).
         loc_Return loc = None \<and> loc_ProxyPass loc = ''http://invalid-backend-ref'')"
proof -
  let ?h = "\<lparr>flt_Type = ''RequestHeaderModifier'', flt_RequestRedirect = None\<rparr>"
  let ?r0 = "\<lparr>flt_Type = ''RequestRedirect'', flt_RequestRedirect = None\<rparr>"
  let ?r1 = "\<lparr>flt_Type = ''RequestRedirect'', flt_RequestRedirect = Some exampleRedirect\<rparr>"
  let ?r2 = "\<lparr>flt_Type = ''RequestRedirect'',
              flt_RequestRedirect = Some (exampleRedirect\<lparr>rf_Hostname := Some ''bar.example.com''\<rparr>)\<rparr>"
  let ?vs = "exampleServer [?r1] []"
  let ?vn = "exampleServer [?r0, ?r1] []"
  have "[?h, ?r1, ?r2] = [?h] @ ?r1 # [?r2] \<and> flt_Type ?r1 = HTTPRouteFilterRequestRedirect
        \<and> (\<forall>g \<in> set [?h]. flt_Type g \<noteq> HTTPRouteFilterRequestRedirect)"
    by (simp add: HTTPRouteFilterRequestRedirect_def)
  from redirect_filter_first_and_return [of "[?h, ?r1, ?r2]", THEN conjunct1, rule_format, OF this]
  have 1: "f_RequestRedirect (createFilters [?h, ?r1, ?r2]) = Some exampleRedirect"
    by simp
  have "\<forall>g \<in> set [?h]. flt_Type g \<noteq> HTTPRouteFilterRequestRedirect"
    by (simp add: HTTPRouteFilterRequestRedirect_def)
  from redirect_filter_first_and_return [of "[?h]", THEN conjunct2, THEN conjunct1, THEN mp, OF this]
  have 2: "f_RequestRedirect (createFilters [?h]) = None" .
  have "createServer exampleLib ?vs = Some (the (createServer exampleLib ?vs))
        \<and> examplePathRule [?r1] [] \<in> set (vs_PathRules ?vs)
        \<and> 0 < length (pr_MatchRules (examplePathRule [?r1] []))
        \<and> f_RequestRedirect (mr_Filters (pr_MatchRules (examplePathRule [?r1] []) ! 0))
            = Some exampleRedirect"
    by (simp add: exampleServer_redirect)
       (simp add: exampleServer_def examplePathRule_def exampleMatchRule_def
                  HTTPRouteFilterRequestRedirect_def)
  from redirect_filter_first_and_return [of "[]", THEN conjunct2, THEN conjunct2, THEN conjunct1,
         rule_format, OF this]
  have 3: "\<exists>loc \<in> set (srv_Locations (the (createServer exampleLib ?vs))).
             loc_ProxyPass loc = []
             \<and> loc_Return loc =
                 Some \<lparr>ret_Code = 302, ret_URL = ''$scheme://foo.example.com:80$request_uri''\<rparr>"
    by (auto simp: exampleRedirect_def exampleServer_def itoa_def string_of_nat.simps digit_char_def)
  have "createServer exampleLib ?vn = Some (the (createServer exampleLib ?vn))
        \<and> examplePathRule [?r0, ?r1] [] \<in> set (vs_PathRules ?vn)
        \<and> 0 < length (pr_MatchRules (examplePathRule [?r0, ?r1] []))
        \<and> f_RequestRedirect (mr_Filters (pr_MatchRules (examplePathRule [?r0, ?r1] []) ! 0)) = None"
    by (simp add: exampleServer_nil_redirect)
       (simp add: exampleServer_def examplePathRule_def exampleMatchRule_def
                  HTTPRouteFilterRequestRedirect_def)
  from redirect_filter_first_and_return [of "[]", THEN conjunct2, THEN conjunct2, THEN conjunct2,
         rule_format, OF this]
  have 4: "\<exists>loc \<in> set (srv_Locations (the (createServer exampleLib ?vn))).
             loc_Return loc = None \<and> loc_ProxyPass loc = ''http://invalid-backend-ref''"
    by (auto simp: examplePathRule_def exampleMatchRule_def exampleGroup_def Name_def NeedsSplit_def
                   createProxyPass_def invalidBackendRef_def)
  from 1 2 3 4 show ?thesis
    by blast
qed

subsection \<open>The empty configuration\<close>

text \<open>
  C4. If the graph has no GatewayClass, or its GatewayClass is not valid, or it has no
  selected Gateway, then buildConfiguration returns a Configuration whose HTTPServers,
  SSLServers, Upstreams and BackendGroups are all empty.
\<close>

theorem buildConfiguration_empty:
  assumes "g_GatewayClass g = None
           \<or> (\<exists>gc. g_GatewayClass g = Some gc \<and> \<not> gc_Valid gc)
           \<or> g_Gateway g = None"
  shows "\<exists>conf. buildConfiguration g = Some conf
           \<and> HTTPServers conf = [] \<and> SSLServers conf = []
           \<and> Upstreams conf = [] \<and> BackendGroups conf = []"
  using assms by (auto simp: buildConfiguration_def emptyConfiguration_def)

theorem buildConfiguration_empty_witness:
  "(\<exists>conf. buildConfiguration
              \<lparr>g_GatewayClass = Some \<lparr>gc_Valid = False\<rparr>,
               g_Gateway =
                 Some \<lparr>gw_Listeners =
                   [(''listener-80-1'',
                     \<lparr>l_Source = \<lparr>ls_Hostname = None, ls_Protocol = ''HTTP''\<rparr>, l_Valid = True,
                      l_SecretPath = [],
                      l_Routes =
                        [(\<lparr>nn_Namespace = ''test'', nn_Name = ''hr-1''\<rparr>,
                          \<lparr>rt_Source = exampleRoute ''hr-1'' ''foo.example.com'' [],
                           rt_BackendRefs = newBackendRefs\<rparr>)],
                      l_AcceptedHostnames = {''foo.example.com''}\<rparr>)]\<rparr>\<rparr> = Some conf
           \<and> HTTPServers conf = [] \<and> SSLServers conf = []
           \<and> Upstreams conf = [] \<and> BackendGroups conf = [])
   \<and> (\<exists>conf. buildConfiguration
              \<lparr>g_GatewayClass = None, g_Gateway = Some \<lparr>gw_Listeners = []\<rparr>\<rparr> = Some conf
           \<and> HTTPServers conf = [] \<and> SSLServers conf = []
           \<and> Upstreams conf = [] \<and> BackendGroups conf = [])
   \<and> (\<exists>conf. buildConfiguration
              \<lparr>g_GatewayClass = Some \<lparr>gc_Valid = True\<rparr>, g_Gateway = None\<rparr> = Some conf
           \<and> HTTPServers conf = [] \<and> SSLServers conf = []
           \<and> Upstreams conf = [] \<and> BackendGroups conf = [])"
proof (intro conjI)
  let ?g = "\<lparr>g_GatewayClass = Some \<lparr>gc_Valid = False\<rparr>,
             g_Gateway =
               Some \<lparr>gw_Listeners =
                 [(''listener-80-1'',
                   \<lparr>l_Source = \<lparr>ls_Hostname = None, ls_Protocol = ''HTTP''\<rparr>, l_Valid = True,
                    l_SecretPath = [],
                    l_Routes =
                      [(\<lparr>nn_Namespace = ''test'', nn_Name = ''hr-1''\<rparr>,
                        \<lparr>rt_Source = exampleRoute ''hr-1'' ''foo.example.com'' [],
                         rt_BackendRefs = newBackendRefs\<rparr>)],
                    l_AcceptedHostnames = {''foo.example.com''}\<rparr>)]\<rparr>\<rparr>"
  have "g_GatewayClass ?g = None \<or> (\<exists>gc. g_GatewayClass ?g = Some gc \<and> \<not> gc_Valid gc)
        \<or> g_Gateway ?g = None"
    by simp
  from buildConfiguration_empty [OF this]
  show "\<exists>conf. buildConfiguration ?g = Some conf
           \<and> HTTPServers conf = [] \<and> SSLServers conf = []
           \<and> Upstreams conf = [] \<and> BackendGroups conf = []" .
next
  let ?g = "\<lparr>g_GatewayClass = None, g_Gateway = Some \<lparr>gw_Listeners = []\<rparr>\<rparr>"
  have "g_GatewayClass ?g = None \<or> (\<exists>gc. g_GatewayClass ?g = Some gc \<and> \<not> gc_Valid gc)
        \<or> g_Gateway ?g = None"
    by simp
  from buildConfiguration_empty [OF this]
  show "\<exists>conf. buildConfiguration ?g = Some conf
           \<and> HTTPServers conf = [] \<and> SSLServers conf = []
           \<and> Upstreams conf = [] \<and> BackendGroups conf = []" .
next
  let ?g = "\<lparr>g_GatewayClass = Some \<lparr>gc_Valid = True\<rparr>, g_Gateway = None\<rparr>"
  have "g_GatewayClass ?g = None \<or> (\<exists>gc. g_GatewayClass ?g = Some gc \<and> \<not> gc_Valid gc)
        \<or> g_Gateway ?g = None"
    by simp
  from buildConfiguration_empty [OF this]
  show "\<exists>conf. buildConfiguration ?g = Some conf
           \<and> HTTPServers conf = [] \<and> SSLServers conf = []
           \<and> Upstreams conf = [] \<and> BackendGroups conf = []" .
qed

subsection \<open>Backend resolution\<close>

text \<open>Association lists as Go maps: a sequence of writes.\<close>

lemma writeAll_Nil [simp]: "writeAll [] al = al"
  by (simp add: writeAll_def)

lemma writeAll_Cons [simp]: "writeAll (kv # kvs) al = writeAll kvs (AList.update (fst kv) (snd kv) al)"
  by (simp add: writeAll_def)

lemma writeAll_append [simp]: "writeAll (xs @ ys) al = writeAll ys (writeAll xs al)"
  by (simp add: writeAll_def)

lemma keys_writeAll: "fst ` set (writeAll kvs al) = fst ` set al \<union> fst ` set kvs"
  by (induction kvs arbitrary: al) (auto simp: dom_update)




lemma resolveRef_closed:
  "resolveRef R S ns ref (bs, brs) =
     (bs @ [refSlot S ns ref],
      brs\<lparr>brs_Errors := brs_Errors brs @ refErrors R S ns ref,
          brs_Resolved := writeAll (refWrites R S ns ref) (brs_Resolved brs)\<rparr>)"
  by (auto simp: resolveRef_def refSlot_def refErrors_def refWrites_def refWeight_def Let_def
           split: sum.splits option.splits)

lemma fold_resolveRef_closed:
  "fold (resolveRef R S ns) refs (bs, brs) =
     (bs @ map (refSlot S ns) refs,
      brs\<lparr>brs_Errors := brs_Errors brs @ concat (map (refErrors R S ns) refs),
          brs_Resolved := writeAll (concat (map (refWrites R S ns) refs)) (brs_Resolved brs)\<rparr>)"
  by (induction refs arbitrary: bs brs) (simp_all add: resolveRef_closed)

lemma resolveRule_closed:
  "resolveRule R S src ir brs =
     brs\<lparr>brs_Errors := brs_Errors brs @ concat (map (refErrors R S (hr_Namespace src)) (rule_BackendRefs (snd ir))),
         brs_Resolved := writeAll (concat (map (refWrites R S (hr_Namespace src)) (rule_BackendRefs (snd ir))))
                           (brs_Resolved brs),
         brs_ByRule := writeAll [ruleGroup S src ir] (brs_ByRule brs)\<rparr>"
  by (simp add: resolveRule_def fold_resolveRef_closed ruleGroup_def Let_def)

lemma fold_resolveRule_closed:
  "fold (resolveRule R S src) irs brs =
     brs\<lparr>brs_Errors := brs_Errors brs
            @ concat (map (\<lambda>ir. concat (map (refErrors R S (hr_Namespace src)) (rule_BackendRefs (snd ir)))) irs),
         brs_Resolved :=
           writeAll (concat (map (\<lambda>ir. concat (map (refWrites R S (hr_Namespace src)) (rule_BackendRefs (snd ir)))) irs))
             (brs_Resolved brs),
         brs_ByRule := writeAll (map (ruleGroup S src) irs) (brs_ByRule brs)\<rparr>"
  by (induction irs arbitrary: brs) (simp_all add: resolveRule_closed)


lemma resolveRoute_closed:
  "rt_BackendRefs (resolveRoute R S r) =
     (rt_BackendRefs r)
       \<lparr>brs_Errors := brs_Errors (rt_BackendRefs r)
          @ concat (map (\<lambda>ir. concat (map (refErrors R S (hr_Namespace (rt_Source r)))
                                         (rule_BackendRefs (snd ir))))
                        (enumerate 0 (hr_Rules (rt_Source r)))),
        brs_Resolved :=
          writeAll (concat (map (\<lambda>ir. concat (map (refWrites R S (hr_Namespace (rt_Source r)))
                                                (rule_BackendRefs (snd ir))))
                                (enumerate 0 (hr_Rules (rt_Source r)))))
            (brs_Resolved (rt_BackendRefs r)),
        brs_ByRule := writeAll (map (ruleGroup S (rt_Source r)) (enumerate 0 (hr_Rules (rt_Source r))))
                        (brs_ByRule (rt_BackendRefs r))\<rparr>"
  by (simp add: resolveRoute_def fold_resolveRule_closed)

lemma resolveRoute_Source [simp]: "rt_Source (resolveRoute R S r) = rt_Source r"
  by (simp add: resolveRoute_def)











subsection \<open>Split clients\<close>

lemmas f64_defs = round_f64_def roundHalfEven_def scaleNum_def scaleDen_def f64_of_int32_def
  f64_100_def f64_mul_def f64_div_def f64_sub_def f64_floor_def fmt_2f_def twoDigits_def
  bitlen.simps string_of_nat.simps digit_char_def Let_def

text \<open>
  The float64 computation for the weights 23 and 102 (total 125), step by step. The exact
  percentage of the first backend is 18.4; the float64 nearest to 18.4 is slightly smaller
  than 18.4, its product with 100 rounds to 1839.9999999999998, and the floor of that is
  1839.
\<close>

lemma percent_23_of_125_quotient:
  "f64_div (f64_mul (f64_of_int32 23) f64_100) (f64_of_int32 125)
     = \<lparr>f_neg = False, f_man = 5179139571476070, f_exp = - 48\<rparr>"
  by (simp add: f64_defs)

lemma percent_23_of_125_product:
  "f64_mul \<lparr>f_neg = False, f_man = 5179139571476070, f_exp = - 48\<rparr> f64_100
     = \<lparr>f_neg = False, f_man = 8092405580431359, f_exp = - 42\<rparr>"
  by (simp add: f64_defs)

lemma percent_23_of_125_floor:
  "f64_floor \<lparr>f_neg = False, f_man = 8092405580431359, f_exp = - 42\<rparr>
     = \<lparr>f_neg = False, f_man = 1839, f_exp = 0\<rparr>"
  by (simp add: f64_defs)

lemma percent_23_of_125_hundredth:
  "f64_div \<lparr>f_neg = False, f_man = 1839, f_exp = 0\<rparr> f64_100
     = \<lparr>f_neg = False, f_man = 5176324821708964, f_exp = - 48\<rparr>"
  by (simp add: f64_defs)

lemma percentOf_23_125:
  "percentOf 23 125 = \<lparr>f_neg = False, f_man = 5176324821708964, f_exp = - 48\<rparr>"
  unfolding percentOf_def Let_def
  by (simp only: percent_23_of_125_quotient percent_23_of_125_product percent_23_of_125_floor
        percent_23_of_125_hundredth)

lemma available_after_23_of_125:
  "f64_sub f64_100 \<lparr>f_neg = False, f_man = 5176324821708964, f_exp = - 48\<rparr>
     = \<lparr>f_neg = False, f_man = 5742793212339159, f_exp = - 46\<rparr>"
  by (simp add: f64_defs)

lemma fmt_2f_18_39:
  "fmt_2f \<lparr>f_neg = False, f_man = 5176324821708964, f_exp = - 48\<rparr> = ''18.39''"
  by (simp add: f64_defs)

lemma fmt_2f_81_61:
  "fmt_2f \<lparr>f_neg = False, f_man = 5742793212339159, f_exp = - 46\<rparr> = ''81.61''"
  by (simp add: f64_defs)

text \<open>
  C1, at the weights 23 and 102. The percentage of the first backend is 2300 / 125 = 18.4
  exactly, so rounding down to two decimals leaves 18.40 (and 81.60 for the last backend);
  the code emits 18.39 and 81.61.
\<close>

theorem createSplitClientDistributions_23_102:
  "createSplitClientDistributions
     \<lparr>bg_Source = \<lparr>nn_Namespace = ''test'', nn_Name = ''hr''\<rparr>, bg_RuleIdx = 0,
      bg_Backends = [\<lparr>br_Name = ''test_svc1_80'', br_Valid = True, br_Weight = 23\<rparr>,
                     \<lparr>br_Name = ''test_svc2_80'', br_Valid = True, br_Weight = 102\<rparr>]\<rparr>
   = Some [\<lparr>Percent = ''18.39'', Value = ''test_svc1_80''\<rparr>,
           \<lparr>Percent = ''81.61'', Value = ''test_svc2_80''\<rparr>]"
  unfolding createSplitClientDistributions_def Let_def
  by (simp add: NeedsSplit_def splitStep_def getSplitClientValue_def percentOf_23_125
        available_after_23_of_125 fmt_2f_18_39 fmt_2f_81_61)

subsection \<open>Virtual servers\<close>

lemmas configuration_defs = buildConfiguration_def buildServers_def buildServersStep_def
  upsertListener_def upsertRoute_def upsertRule_def addMatchRule_def registerHostname_def
  acceptedHostnames_def hpr_buildServers_def hostServer_def listenerServer_def sslOf_def
  getListenerHostname_def getHostname_def wildcardHostname_def newHostPathRules_def
  HTTPProtocolType_def HTTPSProtocolType_def getPath_def sortMatchRules_def
  newBackendRefs_def buildUpstreams_def buildBackendGroups_def addUpstream_def addGroup_def
  zeroBackendGroup_def

text \<open>
  C9, at a graph with two valid HTTPS listeners. The listener without hostname carries a
  route for \<open>example.com\<close>, which yields the server \<open>example.com\<close> with the route's
  rules; the listener with the hostname \<open>example.com\<close> has no routes, which yields a
  second server \<open>example.com\<close> (the 404 server of that listener). The SSL servers of
  the configuration hold the hostname \<open>example.com\<close> twice.
\<close>

theorem buildConfiguration_duplicate_hostname:
  "map_option (\<lambda>conf. map (\<lambda>s. (vs_Hostname s, length (vs_PathRules s))) (SSLServers conf))
     (buildConfiguration exampleGraphTwoListeners)
   = Some [(''example.com'', 1), (''example.com'', 0), (''~^'', 0)]"
  by (simp add: exampleGraphTwoListeners_def exampleListener443_def
        exampleListener443WithHostname_def exampleSecretPath_def exampleRoute_def
        exampleMatch_def configuration_defs enumerate_eq_zip Let_def)

subsection \<open>Where the match rules of a configuration come from\<close>

lemma set_update_subset: "set (AList.update k v al) \<subseteq> insert (k, v) (set al)"
  by (induction al) auto

lemma nth_opt_enumerate:
  "ix \<in> set (enumerate 0 xs) \<Longrightarrow> nth_opt xs (int (fst ix)) = Some (snd ix)"
  by (cases ix) (auto simp: in_set_enumerate_eq nth_opt_def)

lemma hprRules_registerHostname: "hprRules (registerHostname l h hpr) \<subseteq> hprRules hpr"
proof
  fix mr
  assume "mr \<in> hprRules (registerHostname l h hpr)"
  then obtain hr pr where hr: "hr \<in> set (rulesPerHost (registerHostname l h hpr))"
    and pr: "pr \<in> set (snd hr)" and mr: "mr \<in> set (pr_MatchRules (snd pr))"
    by (auto simp: hprRules_def)
  from hr have "hr = (h, []) \<or> hr \<in> set (rulesPerHost hpr)"
    using set_update_subset [of h "[]" "rulesPerHost hpr"]
    by (auto simp: registerHostname_def split: if_splits)
  with pr have "hr \<in> set (rulesPerHost hpr)"
    by auto
  with pr mr show "mr \<in> hprRules hpr"
    by (auto simp: hprRules_def)
qed

lemma hprRules_addMatchRule:
  "hprRules (addMatchRule r filters i h jm hpr)
     \<subseteq> insert \<lparr>mr_MatchIdx = int (fst jm), mr_RuleIdx = int i, mr_Filters = filters,
                 mr_BackendGroup = routeGroup r (int i), mr_Source = rt_Source r\<rparr>
          (hprRules hpr)"
proof
  let ?new = "\<lparr>mr_MatchIdx = int (fst jm), mr_RuleIdx = int i, mr_Filters = filters,
               mr_BackendGroup = routeGroup r (int i), mr_Source = rt_Source r\<rparr>"
  let ?path = "getPath (m_Path (snd jm))"
  let ?rules = "case map_of (rulesPerHost hpr) h of None \<Rightarrow> [] | Some rs \<Rightarrow> rs"
  let ?rule = "case map_of ?rules ?path of None \<Rightarrow> \<lparr>pr_Path = ?path, pr_MatchRules = []\<rparr> | Some rl \<Rightarrow> rl"
  let ?rule' = "?rule\<lparr>pr_MatchRules := pr_MatchRules ?rule @ [?new]\<rparr>"
  fix mr
  assume "mr \<in> hprRules (addMatchRule r filters i h jm hpr)"
  then obtain hr pr where
    hr: "hr \<in> set (AList.update h (AList.update ?path ?rule' ?rules) (rulesPerHost hpr))"
    and pr: "pr \<in> set (snd hr)" and mr: "mr \<in> set (pr_MatchRules (snd pr))"
    by (auto simp: hprRules_def addMatchRule_def Let_def routeGroup_def)
  have in_rules: "\<exists>hr' \<in> set (rulesPerHost hpr). q \<in> set (snd hr')" if "q \<in> set ?rules" for q
  proof (cases "map_of (rulesPerHost hpr) h")
    case None
    with that show ?thesis by simp
  next
    case (Some rs)
    then have "(h, rs) \<in> set (rulesPerHost hpr)"
      by (rule map_of_SomeD)
    with that Some show ?thesis
      by force
  qed
  have old_rule: "m \<in> hprRules hpr" if "m \<in> set (pr_MatchRules ?rule)" for m
  proof (cases "map_of ?rules ?path")
    case None
    with that show ?thesis by simp
  next
    case (Some rl)
    then have "(?path, rl) \<in> set ?rules"
      by (rule map_of_SomeD)
    from in_rules [OF this] that Some show ?thesis
      by (force simp: hprRules_def)
  qed
  from hr set_update_subset [of h "AList.update ?path ?rule' ?rules" "rulesPerHost hpr"]
  consider "hr = (h, AList.update ?path ?rule' ?rules)" | "hr \<in> set (rulesPerHost hpr)"
    by auto
  then show "mr \<in> insert ?new (hprRules hpr)"
  proof cases
    case 1
    with pr set_update_subset [of ?path ?rule' ?rules]
    consider "pr = (?path, ?rule')" | "pr \<in> set ?rules"
      by auto
    then show ?thesis
    proof cases
      case 1
      with mr have "mr = ?new \<or> mr \<in> set (pr_MatchRules ?rule)"
        by auto
      with old_rule show ?thesis
        by auto
    next
      case 2
      from in_rules [OF 2] mr show ?thesis
        by (auto simp: hprRules_def)
    qed
  next
    case 2
    with pr mr show ?thesis
      by (auto simp: hprRules_def)
  qed
qed

lemma hprFrom_registerHostname: "hprFrom A hpr \<Longrightarrow> hprFrom A (registerHostname l h hpr)"
  using hprRules_registerHostname [of l h hpr] by (auto simp: hprFrom_def)

lemma hprFrom_addMatchRule:
  assumes "hprFrom A hpr" and "r \<in> A"
    and "irule \<in> set (enumerate 0 (hr_Rules (rt_Source r)))"
    and "jm \<in> set (enumerate 0 (rule_Matches (snd irule)))"
  shows "hprFrom A (addMatchRule r (createFilters (rule_Filters (snd irule))) (fst irule) h jm hpr)"
proof -
  let ?new = "\<lparr>mr_MatchIdx = int (fst jm), mr_RuleIdx = int (fst irule),
               mr_Filters = createFilters (rule_Filters (snd irule)),
               mr_BackendGroup = routeGroup r (int (fst irule)), mr_Source = rt_Source r\<rparr>"
  have "fromRoute r ?new"
    using nth_opt_enumerate [OF assms(3)] nth_opt_enumerate [OF assms(4)]
    by (simp add: fromRoute_def)
  with assms(1,2) hprRules_addMatchRule [of r "createFilters (rule_Filters (snd irule))" "fst irule" h jm hpr]
  show ?thesis
    by (auto simp: hprFrom_def)
qed

lemma hprFrom_upsertRule:
  assumes "hprFrom A hpr" and "r \<in> A"
    and "irule \<in> set (enumerate 0 (hr_Rules (rt_Source r)))"
  shows "hprFrom A (upsertRule r hostnames irule hpr)"
  unfolding upsertRule_def Let_def
proof (rule fold_invariant [where Q = "\<lambda>h. True" and P = "hprFrom A"])
  show "hprFrom A hpr" by (rule assms(1))
next
  fix h s
  assume s: "hprFrom A s"
  show "hprFrom A (fold (addMatchRule r (createFilters (rule_Filters (snd irule))) (fst irule) h)
                        (enumerate 0 (rule_Matches (snd irule))) s)"
  proof (rule fold_invariant [where Q = "\<lambda>jm. jm \<in> set (enumerate 0 (rule_Matches (snd irule)))"
                                and P = "hprFrom A"])
    show "hprFrom A s" by (rule s)
  next
    fix jm s'
    assume "jm \<in> set (enumerate 0 (rule_Matches (snd irule)))" and "hprFrom A s'"
    then show "hprFrom A (addMatchRule r (createFilters (rule_Filters (snd irule))) (fst irule) h jm s')"
      using assms(2,3) by (intro hprFrom_addMatchRule)
  qed simp
qed simp

lemma hprFrom_upsertRoute:
  assumes "hprFrom A hpr" and "r \<in> A"
  shows "hprFrom A (upsertRoute l r hpr)"
  unfolding upsertRoute_def Let_def
proof (rule fold_invariant [where Q = "\<lambda>irule. irule \<in> set (enumerate 0 (hr_Rules (rt_Source r)))"
                              and P = "hprFrom A"])
  show "hprFrom A (fold (registerHostname l) (acceptedHostnames l r) hpr)"
    by (rule fold_invariant [where Q = "\<lambda>h. True" and P = "hprFrom A"])
       (simp_all add: assms(1) hprFrom_registerHostname)
next
  fix irule s
  assume "irule \<in> set (enumerate 0 (hr_Rules (rt_Source r)))" and "hprFrom A s"
  then show "hprFrom A (upsertRule r (acceptedHostnames l r) irule s)"
    using assms(2) by (intro hprFrom_upsertRule)
qed simp

lemma hprRules_listeners [simp]: "hprRules (hpr\<lparr>listeners := ls\<rparr>) = hprRules hpr"
  by (simp add: hprRules_def)

lemma hprFrom_upsertListener:
  assumes "hprFrom A hpr" and "\<forall>kr \<in> set (l_Routes l). snd kr \<in> A"
  shows "hprFrom A (upsertListener hpr l)"
  unfolding upsertListener_def
proof (rule fold_invariant [where Q = "\<lambda>kr. kr \<in> set (l_Routes l)" and P = "hprFrom A"])
  show "hprFrom A (if ls_Protocol (l_Source l) = HTTPSProtocolType
                   then hpr\<lparr>listeners := listeners hpr @ [l]\<rparr> else hpr)"
    using assms(1) by (simp add: hprFrom_def)
next
  fix kr s
  assume "kr \<in> set (l_Routes l)" and "hprFrom A s"
  then show "hprFrom A (upsertRoute l (snd kr) s)"
    using assms(2) by (intro hprFrom_upsertRoute) auto
qed simp

lemma hprFrom_buildServersStep:
  assumes "kl \<in> set lsnrs"
    and "\<forall>st. sto = Some st \<longrightarrow> hprFrom (validRoutes lsnrs) (fst st) \<and> hprFrom (validRoutes lsnrs) (snd st)"
    and "buildServersStep kl sto = Some st'"
  shows "hprFrom (validRoutes lsnrs) (fst st') \<and> hprFrom (validRoutes lsnrs) (snd st')"
proof -
  from assms(3) obtain st where sto: "sto = Some st"
    by (cases sto) (auto simp: buildServersStep_def)
  with assms(2) have inv: "hprFrom (validRoutes lsnrs) (fst st)" "hprFrom (validRoutes lsnrs) (snd st)"
    by auto
  show ?thesis
  proof (cases "l_Valid (snd kl)")
    case False
    with assms(3) sto inv show ?thesis
      by (auto simp: buildServersStep_def)
  next
    case True
    with assms(1) have "\<forall>kr \<in> set (l_Routes (snd kl)). snd kr \<in> validRoutes lsnrs"
      by (auto simp: validRoutes_def)
    from hprFrom_upsertListener [OF inv(1) this] hprFrom_upsertListener [OF inv(2) this]
      assms(3) sto inv
    show ?thesis
      by (auto simp: buildServersStep_def Let_def split: if_splits)
  qed
qed

lemma hprFrom_fold_buildServersStep:
  assumes "fold buildServersStep lsnrs (Some (newHostPathRules, newHostPathRules)) = Some st"
  shows "hprFrom (validRoutes lsnrs) (fst st) \<and> hprFrom (validRoutes lsnrs) (snd st)"
proof -
  let ?P = "\<lambda>sto. \<forall>st. sto = Some st
              \<longrightarrow> hprFrom (validRoutes lsnrs) (fst st) \<and> hprFrom (validRoutes lsnrs) (snd st)"
  have "?P (fold buildServersStep lsnrs (Some (newHostPathRules, newHostPathRules)))"
  proof (rule fold_invariant [where Q = "\<lambda>kl. kl \<in> set lsnrs" and P = ?P])
    show "?P (Some (newHostPathRules, newHostPathRules))"
      by (simp add: hprFrom_def hprRules_def newHostPathRules_def)
  next
    fix kl sto
    assume "kl \<in> set lsnrs" and "?P sto"
    then show "?P (buildServersStep kl sto)"
      using hprFrom_buildServersStep [of kl lsnrs sto] by blast
  qed simp
  with assms show ?thesis
    by simp
qed

lemma those_Some_set:
  assumes "those xs = Some ys" and "y \<in> set ys"
  shows "Some y \<in> set xs"
proof -
  from assms(2) obtain i where "i < length ys" and "ys ! i = y"
    by (auto simp: in_set_conv_nth)
  with those_Some_nth [OF assms(1)] show ?thesis
    by (auto simp: in_set_conv_nth)
qed

lemma hpr_buildServers_rules:
  assumes "hpr_buildServers hpr = Some servers" and "vs \<in> set servers"
    and "pr \<in> set (vs_PathRules vs)" and "mr \<in> set (pr_MatchRules pr)"
  shows "mr \<in> hprRules hpr"
proof -
  from assms(1) obtain ss where ss: "those (map (hostServer hpr) (rulesPerHost hpr)) = Some ss"
    and servers: "servers = sort_key vs_Hostname (ss @ concat (map listenerServer (listeners hpr)))"
    by (auto simp: hpr_buildServers_def split: option.splits)
  from assms(2) servers have "vs \<in> set ss \<or> (\<exists>l. vs \<in> set (listenerServer l))"
    by auto
  moreover have "\<not> (\<exists>l. vs \<in> set (listenerServer l))"
    using assms(3) by (auto simp: listenerServer_def Let_def split: if_splits)
  ultimately have "vs \<in> set ss"
    by simp
  from those_Some_set [OF ss this] obtain hr where hr: "hr \<in> set (rulesPerHost hpr)"
    and vs: "hostServer hpr hr = Some vs"
    by auto
  from vs have "vs_PathRules vs =
      sort_key pr_Path
        (map (\<lambda>q. (snd q)\<lparr>pr_MatchRules := sortMatchRules (pr_MatchRules (snd q))\<rparr>) (snd hr))"
    by (auto simp: hostServer_def split: option.splits)
  with assms(3) obtain q where q: "q \<in> set (snd hr)"
    and pr: "pr = (snd q)\<lparr>pr_MatchRules := sortMatchRules (pr_MatchRules (snd q))\<rparr>"
    by auto
  from pr assms(4) have "mr \<in> set (pr_MatchRules (snd q))"
    by (simp add: sortMatchRules_def)
  with hr q show ?thesis
    by (auto simp: hprRules_def)
qed

text \<open>
  Every match rule of a configuration was built from a route of a valid listener of the
  graph's Gateway: it has the route as its source, the backend group of its rule, the
  filters of its rule, and indices that exist.
\<close>

lemma buildConfiguration_rules:
  assumes "buildConfiguration g = Some conf"
    and "vs \<in> set (HTTPServers conf) \<union> set (SSLServers conf)"
    and "pr \<in> set (vs_PathRules vs)" and "mr \<in> set (pr_MatchRules pr)"
  shows "\<exists>gw. g_Gateway g = Some gw \<and> (\<exists>r \<in> validRoutes (gw_Listeners gw). fromRoute r mr)"
proof -
  from assms(1,2) obtain gw where gw: "g_Gateway g = Some gw"
    by (cases "g_Gateway g") (auto simp: buildConfiguration_def emptyConfiguration_def split: if_splits)
  from assms(1,2) gw obtain hs where hs: "buildServers (gw_Listeners gw) = Some hs"
    and conf: "HTTPServers conf = fst hs" "SSLServers conf = snd hs"
    by (auto simp: buildConfiguration_def emptyConfiguration_def Let_def split: if_splits option.splits)
  from hs obtain st where
    st: "fold buildServersStep (gw_Listeners gw) (Some (newHostPathRules, newHostPathRules)) = Some st"
    and http: "hpr_buildServers (fst st) = Some (fst hs)"
    and ssl: "hpr_buildServers (snd st) = Some (snd hs)"
    by (auto simp: buildServers_def split: option.splits)
  from assms(2) conf have "vs \<in> set (fst hs) \<or> vs \<in> set (snd hs)"
    by auto
  then have "mr \<in> hprRules (fst st) \<or> mr \<in> hprRules (snd st)"
    using hpr_buildServers_rules [OF http _ assms(3,4)] hpr_buildServers_rules [OF ssl _ assms(3,4)]
    by blast
  with hprFrom_fold_buildServersStep [OF st]
  have "\<exists>r \<in> validRoutes (gw_Listeners gw). fromRoute r mr"
    by (auto simp: hprFrom_def)
  with gw show ?thesis
    by simp
qed

subsection \<open>Upstreams and backend groups of a configuration\<close>

text \<open>A loop that only ever adds keys holds, in the end, the keys of every element it has seen.\<close>

lemma fold_keys_mono:
  assumes "\<And>x s. K s \<subseteq> K (f x s)"
  shows "K s \<subseteq> K (fold f xs s)"
proof (induction xs arbitrary: s)
  case Nil
  show ?case by simp
next
  case (Cons x xs)
  have "K s \<subseteq> K (f x s)" by (rule assms)
  also have "\<dots> \<subseteq> K (fold f xs (f x s))" by (rule Cons.IH)
  finally show ?case by simp
qed

lemma fold_keys_hit:
  assumes mono: "\<And>x s. K s \<subseteq> K (f x s)"
    and hit: "\<And>s. G x \<subseteq> K (f x s)"
    and x: "x \<in> set xs"
  shows "G x \<subseteq> K (fold f xs s)"
  using x
proof (induction xs arbitrary: s)
  case Nil
  then show ?case by simp
next
  case (Cons y ys)
  show ?case
  proof (cases "x = y")
    case True
    have "G x \<subseteq> K (f x s)" by (rule hit)
    also have "\<dots> \<subseteq> K (fold f ys (f x s))"
      by (rule fold_keys_mono [where K = K and f = f, OF mono])
    finally show ?thesis using True by simp
  next
    case False
    with Cons.prems have "x \<in> set ys" by simp
    from Cons.IH [OF this] show ?thesis by simp
  qed
qed

text \<open>
  \<^verbatim>\<open>buildUpstreams\<close> and \<^verbatim>\<open>buildBackendGroups\<close> are the same three nested loops, over
  the valid listeners, their routes, and the items of a map of the route.
\<close>

lemma collect_invariant:
  fixes items :: "route \<Rightarrow> 'x list" and add :: "'x \<Rightarrow> 's \<Rightarrow> 's"
  assumes "P s0"
    and step: "\<And>r x s. r \<in> validRoutes lsnrs \<Longrightarrow> x \<in> set (items r) \<Longrightarrow> P s \<Longrightarrow> P (add x s)"
  shows "P (fold (\<lambda>(kl :: string \<times> listener) acc.
                    if \<not> l_Valid (snd kl) then acc
                    else fold (\<lambda>(kr :: NamespacedName \<times> route). fold add (items (snd kr)))
                              (l_Routes (snd kl)) acc)
                 lsnrs s0)"
proof (rule fold_invariant [where Q = "\<lambda>kl. kl \<in> set lsnrs" and P = P])
  show "P s0" by (rule assms(1))
next
  fix kl :: "string \<times> listener" and s
  assume kl: "kl \<in> set lsnrs" and s: "P s"
  show "P (if \<not> l_Valid (snd kl) then s
           else fold (\<lambda>(kr :: NamespacedName \<times> route). fold add (items (snd kr)))
                     (l_Routes (snd kl)) s)"
  proof (cases "l_Valid (snd kl)")
    case False
    with s show ?thesis by simp
  next
    case True
    have "P (fold (\<lambda>(kr :: NamespacedName \<times> route). fold add (items (snd kr)))
                  (l_Routes (snd kl)) s)"
    proof (rule fold_invariant [where Q = "\<lambda>kr. kr \<in> set (l_Routes (snd kl))" and P = P])
      show "P s" by (rule s)
    next
      fix kr :: "NamespacedName \<times> route" and s'
      assume kr: "kr \<in> set (l_Routes (snd kl))" and s': "P s'"
      from kl True kr have r: "snd kr \<in> validRoutes lsnrs"
        by (auto simp: validRoutes_def)
      show "P (fold add (items (snd kr)) s')"
        by (rule fold_invariant [where Q = "\<lambda>x. x \<in> set (items (snd kr))" and P = P])
           (simp_all add: s' step [OF r])
    qed simp
    with True show ?thesis by simp
  qed
qed simp

lemma collect_keys:
  fixes items :: "route \<Rightarrow> 'x list" and add :: "'x \<Rightarrow> 's \<Rightarrow> 's" and K :: "'s \<Rightarrow> 'k set"
  assumes mono: "\<And>x s. K s \<subseteq> K (add x s)"
    and hit: "\<And>x s. key x \<in> K (add x s)"
    and r: "r \<in> validRoutes lsnrs" and x: "x \<in> set (items r)"
  shows "key x \<in> K (fold (\<lambda>(kl :: string \<times> listener) acc.
                            if \<not> l_Valid (snd kl) then acc
                            else fold (\<lambda>(kr :: NamespacedName \<times> route). fold add (items (snd kr)))
                                      (l_Routes (snd kl)) acc)
                         lsnrs s0)"
proof -
  let ?fr = "\<lambda>kr :: NamespacedName \<times> route. fold add (items (snd kr))"
  let ?fl = "\<lambda>(kl :: string \<times> listener) acc.
               if \<not> l_Valid (snd kl) then acc else fold ?fr (l_Routes (snd kl)) acc"
  have m2: "K s \<subseteq> K (?fr kr s)" for kr s
    by (rule fold_keys_mono [where K = K and f = add, OF mono])
  have m3: "K s \<subseteq> K (?fl kl s)" for kl s
    using fold_keys_mono [where K = K and f = ?fr, OF m2] by auto
  from r obtain kl kr where kl: "kl \<in> set lsnrs" and v: "l_Valid (snd kl)"
    and kr: "kr \<in> set (l_Routes (snd kl))" and rk: "r = snd kr"
    by (auto simp: validRoutes_def)
  have x': "x \<in> set (items (snd kr))"
    using x rk by simp
  have h1: "{key x} \<subseteq> K (?fr kr s)" for s
    using fold_keys_hit [where K = K and f = add and G = "\<lambda>y. {key y}" and x = x
                           and xs = "items (snd kr)", OF mono _ x'] hit
    by simp
  have h2: "{key x} \<subseteq> K (?fl kl s)" for s
    using fold_keys_hit [where K = K and f = ?fr and G = "\<lambda>kr'. if kr' = kr then {key x} else {}"
                           and x = kr and xs = "l_Routes (snd kl)", OF m2 _ kr] h1 v
    by auto
  have "{key x} \<subseteq> K (fold ?fl lsnrs s0)"
    using fold_keys_hit [where K = K and f = ?fl and G = "\<lambda>kl'. if kl' = kl then {key x} else {}"
                           and x = kl and xs = lsnrs, OF m3 _ kl] h2
    by auto
  then show ?thesis
    by simp
qed

lemma keys_addUpstream: "fst ` set (addUpstream ne uu) = insert (fst ne) (fst ` set uu)"
  by (auto simp: addUpstream_def dom_update map_of_eq_None_iff)

lemma named_addUpstream:
  "\<forall>ku \<in> set uu. up_Name (snd ku) = fst ku \<Longrightarrow> \<forall>ku \<in> set (addUpstream ne uu). up_Name (snd ku) = fst ku"
  using set_update_subset [of "fst ne" "\<lparr>up_Name = fst ne, up_Endpoints = snd ne\<rparr>" uu]
  by (auto simp: addUpstream_def)

text \<open>Every backend name that a route of a valid listener has resolved is the name of an upstream.\<close>

lemma buildUpstreams_names:
  assumes "r \<in> validRoutes lsnrs" and "n \<in> fst ` set (brs_Resolved (rt_BackendRefs r))"
  shows "n \<in> up_Name ` set (buildUpstreams lsnrs)"
proof -
  let ?uu = "fold (\<lambda>(kl :: string \<times> listener) uu.
                     if \<not> l_Valid (snd kl) then uu
                     else fold (\<lambda>(kr :: NamespacedName \<times> route).
                                  fold addUpstream (brs_Resolved (rt_BackendRefs (snd kr))))
                               (l_Routes (snd kl)) uu)
                  lsnrs []"
  from assms(2) obtain ne where ne: "ne \<in> set (brs_Resolved (rt_BackendRefs r))" and n: "n = fst ne"
    by auto
  have "fst ne \<in> fst ` set ?uu"
    by (rule collect_keys [where K = "\<lambda>uu. fst ` set uu" and key = fst and add = addUpstream
                             and items = "\<lambda>r. brs_Resolved (rt_BackendRefs r)", OF _ _ assms(1) ne])
       (auto simp: keys_addUpstream)
  moreover have "\<forall>ku \<in> set ?uu. up_Name (snd ku) = fst ku"
    by (rule collect_invariant [where P = "\<lambda>uu. \<forall>ku \<in> set uu. up_Name (snd ku) = fst ku"
                                 and add = addUpstream
                                 and items = "\<lambda>r. brs_Resolved (rt_BackendRefs r)"])
       (simp_all add: named_addUpstream)
  ultimately have "n \<in> up_Name ` snd ` set ?uu"
    using n by force
  then show ?thesis
    by (simp add: buildUpstreams_def Let_def)
qed

lemma keys_addGroup: "fst ` set (addGroup ig ug) = insert (GroupName (snd ig)) (fst ` set ug)"
  by (auto simp: addGroup_def dom_update map_of_eq_None_iff)

lemma named_addGroup:
  "\<forall>kg \<in> set ug. GroupName (snd kg) = fst kg \<Longrightarrow> \<forall>kg \<in> set (addGroup ig ug). GroupName (snd kg) = fst kg"
  using set_update_subset [of "GroupName (snd ig)" "snd ig" ug]
  by (auto simp: addGroup_def)

text \<open>
  The backend groups of a configuration are groups of routes of valid listeners, and every
  such group has a group of its name in the configuration.
\<close>

lemma buildBackendGroups_names:
  assumes "r \<in> validRoutes lsnrs" and "ig \<in> set (brs_ByRule (rt_BackendRefs r))"
  shows "GroupName (snd ig) \<in> GroupName ` set (buildBackendGroups lsnrs)"
proof -
  let ?ug = "fold (\<lambda>(kl :: string \<times> listener) ug.
                     if \<not> l_Valid (snd kl) then ug
                     else fold (\<lambda>(kr :: NamespacedName \<times> route).
                                  fold addGroup (brs_ByRule (rt_BackendRefs (snd kr))))
                               (l_Routes (snd kl)) ug)
                  lsnrs []"
  have "GroupName (snd ig) \<in> fst ` set ?ug"
    by (rule collect_keys [where K = "\<lambda>ug. fst ` set ug" and key = "\<lambda>ig. GroupName (snd ig)"
                             and add = addGroup
                             and items = "\<lambda>r. brs_ByRule (rt_BackendRefs r)", OF _ _ assms])
       (auto simp: keys_addGroup)
  moreover have "\<forall>kg \<in> set ?ug. GroupName (snd kg) = fst kg"
    by (rule collect_invariant [where P = "\<lambda>ug. \<forall>kg \<in> set ug. GroupName (snd kg) = fst kg"
                                 and add = addGroup
                                 and items = "\<lambda>r. brs_ByRule (rt_BackendRefs r)"])
       (simp_all add: named_addGroup)
  ultimately obtain kg where kg: "kg \<in> set ?ug" and eq: "GroupName (snd kg) = GroupName (snd ig)"
    by auto
  from kg have "GroupName (snd kg) \<in> GroupName ` snd ` set ?ug"
    by (intro imageI)
  then have "GroupName (snd ig) \<in> GroupName ` snd ` set ?ug"
    by (simp only: eq)
  then show ?thesis
    by (simp add: buildBackendGroups_def Let_def)
qed

lemma buildBackendGroups_members:
  assumes "g \<in> set (buildBackendGroups lsnrs)"
  shows "\<exists>r \<in> validRoutes lsnrs. \<exists>ig \<in> set (brs_ByRule (rt_BackendRefs r)). g = snd ig"
proof -
  let ?ug = "fold (\<lambda>(kl :: string \<times> listener) ug.
                     if \<not> l_Valid (snd kl) then ug
                     else fold (\<lambda>(kr :: NamespacedName \<times> route).
                                  fold addGroup (brs_ByRule (rt_BackendRefs (snd kr))))
                               (l_Routes (snd kl)) ug)
                  lsnrs []"
  let ?P = "\<lambda>ug :: (string \<times> BackendGroup) list.
              \<forall>kg \<in> set ug. \<exists>r \<in> validRoutes lsnrs. \<exists>ig \<in> set (brs_ByRule (rt_BackendRefs r)). snd kg = snd ig"
  have "?P ?ug"
  proof (rule collect_invariant [where P = ?P and add = addGroup
                                   and items = "\<lambda>r. brs_ByRule (rt_BackendRefs r)"])
    show "?P []" by simp
  next
    fix r x and s :: "(string \<times> BackendGroup) list"
    assume "r \<in> validRoutes lsnrs" and "x \<in> set (brs_ByRule (rt_BackendRefs r))" and "?P s"
    show "?P (addGroup x s)"
    proof
      fix kg
      assume "kg \<in> set (addGroup x s)"
      with set_update_subset [of "GroupName (snd x)" "snd x" s]
      have "snd kg = snd x \<or> kg \<in> set s"
        by (auto simp: addGroup_def split: if_splits)
      with \<open>r \<in> validRoutes lsnrs\<close> \<open>x \<in> set (brs_ByRule (rt_BackendRefs r))\<close> \<open>?P s\<close>
      show "\<exists>r \<in> validRoutes lsnrs. \<exists>ig \<in> set (brs_ByRule (rt_BackendRefs r)). snd kg = snd ig"
        by blast
    qed
  qed
  moreover from assms obtain kg where "kg \<in> set ?ug" and "g = snd kg"
    by (auto simp: buildBackendGroups_def Let_def)
  ultimately show ?thesis
    by blast
qed

subsection \<open>Resolved routes\<close>

lemma set_writeAll_subset: "set (writeAll kvs al) \<subseteq> set al \<union> set kvs"
proof (induction kvs arbitrary: al)
  case Nil
  show ?case by simp
next
  case (Cons kv kvs)
  from Cons.IH [of "AList.update (fst kv) (snd kv) al"] set_update_subset [of "fst kv" "snd kv" al]
  show ?case
    by auto
qed

text \<open>
  After resolution, starting from no backend groups, the name of every valid backend of a
  group of the route is a key of the route's map of resolved backends.
\<close>

lemma resolveRoute_valid_names:
  assumes "brs_ByRule (rt_BackendRefs r0) = []"
    and "ig \<in> set (brs_ByRule (rt_BackendRefs (resolveRoute R S r0)))"
    and "b \<in> set (bg_Backends (snd ig))" and "br_Valid b"
  shows "br_Name b \<in> fst ` set (brs_Resolved (rt_BackendRefs (resolveRoute R S r0)))"
proof -
  let ?ns = "hr_Namespace (rt_Source r0)"
  let ?irs = "enumerate 0 (hr_Rules (rt_Source r0))"
  let ?kvs = "concat (map (\<lambda>ir. concat (map (refWrites R S ?ns) (rule_BackendRefs (snd ir)))) ?irs)"
  from assms(1,2) set_writeAll_subset [of "map (ruleGroup S (rt_Source r0)) ?irs" "[]"]
  obtain ir where ir: "ir \<in> set ?irs" and ig: "ig = ruleGroup S (rt_Source r0) ir"
    by (auto simp: resolveRoute_closed)
  from assms(3) ig obtain ref where ref: "ref \<in> set (rule_BackendRefs (snd ir))"
    and b: "b = refSlot S ?ns ref"
    by (auto simp: ruleGroup_def)
  from b assms(4) obtain sp where sp: "getServiceAndPortFromRef ref ?ns S = Inr sp"
    and name: "br_Name b = backendName (fst sp) (snd sp)"
    by (cases "getServiceAndPortFromRef ref ?ns S") (auto simp: refSlot_def)
  from sp have "(br_Name b, fst (R (fst sp) (snd sp))) \<in> set (refWrites R S ?ns ref)"
    by (simp add: refWrites_def name)
  with ir ref have "(br_Name b, fst (R (fst sp) (snd sp))) \<in> set ?kvs"
    by force
  then have "br_Name b \<in> fst ` set ?kvs"
    by (rule rev_image_eqI) simp
  then show ?thesis
    by (simp add: resolveRoute_closed keys_writeAll)
qed

subsection \<open>No dangling references\<close>

lemma createPathRuleLocations_cases:
  assumes "createPathRuleLocations lib lp rule = Some locs" and "loc \<in> set locs"
  shows "loc_ProxyPass loc = []
         \<or> (\<exists>k < length (pr_MatchRules rule). \<exists>hmo.
               createMatchRuleLocation lib lp rule (int k) (pr_MatchRules rule ! k) = Some (loc, hmo))"
proof -
  let ?xs = "map (\<lambda>ir. createMatchRuleLocation lib lp rule (int (fst ir)) (snd ir))
                 (enumerate 0 (pr_MatchRules rule))"
  from assms(1) obtain res where res: "those ?xs = Some res"
    by (cases "those ?xs") (simp_all add: createPathRuleLocations_def)
  with assms(1) have locs: "set locs \<subseteq> set (map fst res) \<union> {l. loc_ProxyPass l = []}"
    by (auto simp: createPathRuleLocations_def Let_def emptyLocation_def split: if_splits)
  from assms(2) locs consider "loc \<in> set (map fst res)" | "loc_ProxyPass loc = []"
    by auto
  then show ?thesis
  proof cases
    case 1
    then obtain k where k: "k < length res" and loc: "loc = fst (res ! k)"
      by (auto simp: in_set_conv_nth)
    from those_Some_nth [OF res] k
    have len: "length res = length (pr_MatchRules rule)" and nth: "?xs ! k = Some (res ! k)"
      by auto
    from nth k len
    have "createMatchRuleLocation lib lp rule (int k) (pr_MatchRules rule ! k) = Some (res ! k)"
      by (simp add: nth_enumerate_eq)
    then have "createMatchRuleLocation lib lp rule (int k) (pr_MatchRules rule ! k)
                 = Some (loc, snd (res ! k))"
      by (simp add: loc)
    with k len show ?thesis
      by auto
  next
    case 2
    then show ?thesis by simp
  qed
qed

lemma createServer_cases:
  assumes "createServer lib vs = Some s" and "loc \<in> set (srv_Locations s)"
  shows "loc_ProxyPass loc = []
         \<or> (\<exists>rule \<in> set (vs_PathRules vs). \<exists>k < length (pr_MatchRules rule). \<exists>hmo.
               createMatchRuleLocation lib (listenerPortOf vs) rule (int k) (pr_MatchRules rule ! k)
                 = Some (loc, hmo))"
proof (cases "length (vs_PathRules vs) = 0")
  case True
  with assms show ?thesis
    by (auto simp: createServer_def Let_def emptyLocation_def)
next
  case False
  let ?xs = "map (createPathRuleLocations lib (listenerPortOf vs)) (vs_PathRules vs)"
  from assms(1) False obtain locss where locss: "those ?xs = Some locss"
    and s: "srv_Locations s = concat locss"
    by (auto simp: createServer_def Let_def split: option.splits)
  from assms(2) s obtain locs where locs: "locs \<in> set locss" and loc: "loc \<in> set locs"
    by auto
  from those_Some_set [OF locss locs]
  have "Some locs \<in> createPathRuleLocations lib (listenerPortOf vs) ` set (vs_PathRules vs)"
    by (simp only: set_map)
  then obtain rule where rule: "rule \<in> set (vs_PathRules vs)"
    and c': "Some locs = createPathRuleLocations lib (listenerPortOf vs) rule"
    by (rule imageE)
  from c' have c: "createPathRuleLocations lib (listenerPortOf vs) rule = Some locs"
    by simp
  from createPathRuleLocations_cases [OF c loc] rule show ?thesis
    by blast
qed

lemma createServers_cases:
  assumes "createServers lib conf = Some servers" and "s \<in> set servers"
    and "loc \<in> set (srv_Locations s)"
  shows "loc_ProxyPass loc = []
         \<or> (\<exists>vs \<in> set (HTTPServers conf) \<union> set (SSLServers conf).
              \<exists>rule \<in> set (vs_PathRules vs). \<exists>k < length (pr_MatchRules rule). \<exists>hmo.
                createMatchRuleLocation lib (listenerPortOf vs) rule (int k) (pr_MatchRules rule ! k)
                  = Some (loc, hmo))"
proof -
  let ?xs = "map (createServer lib) (HTTPServers conf @ SSLServers conf)"
  from assms(1) obtain ss where ss: "those ?xs = Some ss"
    by (cases "those ?xs") (simp_all add: createServers_def Let_def)
  with assms(1) have servers: "set servers \<subseteq> {createDefaultHTTPServer, createDefaultSSLServer} \<union> set ss"
    by (auto simp: createServers_def Let_def split: if_splits)
  from assms(2,3) servers have "s \<in> set ss"
    by (auto simp: createDefaultHTTPServer_def createDefaultSSLServer_def)
  from those_Some_set [OF ss this]
  have "Some s \<in> createServer lib ` set (HTTPServers conf @ SSLServers conf)"
    by (simp only: set_map)
  then obtain vs where vs': "vs \<in> set (HTTPServers conf @ SSLServers conf)"
    and c': "Some s = createServer lib vs"
    by (rule imageE)
  from vs' have vs: "vs \<in> set (HTTPServers conf) \<union> set (SSLServers conf)"
    by simp
  from c' have c: "createServer lib vs = Some s"
    by simp
  from createServer_cases [OF c assms(3)] vs show ?thesis
    by blast
qed

lemma GroupName_not_empty: "GroupName bg \<noteq> []"
  by (simp add: GroupName_def)

lemma NeedsSplit_Name: "NeedsSplit bg \<Longrightarrow> Name bg = GroupName bg"
  by (auto simp: NeedsSplit_def Name_def split: list.splits)

lemma not_NeedsSplit_Name:
  "\<not> NeedsSplit bg \<Longrightarrow> Name bg = [] \<or> (\<exists>b. bg_Backends bg = [b] \<and> br_Valid b \<and> Name bg = br_Name b)"
  by (auto simp: NeedsSplit_def Name_def split: list.splits)

lemma fold_splitStep_values:
  "map Value (snd (fold (splitStep t) bs st)) = map Value (snd st) @ map getSplitClientValue bs"
  by (induction bs arbitrary: st) (simp_all add: splitStep_def Let_def)

lemma createSplitClientDistributions_values:
  assumes "createSplitClientDistributions bg = Some ds" and "d \<in> set ds"
  shows "Value d = invalidBackendRef \<or> (\<exists>b \<in> set (bg_Backends bg). br_Valid b \<and> Value d = br_Name b)"
proof -
  let ?bs = "bg_Backends bg"
  let ?t = "fold (\<lambda>b t. t + br_Weight b) ?bs (0 :: 32 word)"
  from assms(1) have ns: "NeedsSplit bg"
    by (auto simp: createSplitClientDistributions_def split: if_splits)
  then have ne: "?bs \<noteq> []"
    by (auto simp: NeedsSplit_def)
  show ?thesis
  proof (cases "?t = 0")
    case True
    with assms ns show ?thesis
      by (auto simp: createSplitClientDistributions_def Let_def)
  next
    case False
    with assms(1) ns have "map Value ds = map getSplitClientValue (butlast ?bs) @ [getSplitClientValue (last ?bs)]"
      by (auto simp: createSplitClientDistributions_def Let_def fold_splitStep_values)
    also have "\<dots> = map getSplitClientValue (butlast ?bs @ [last ?bs])"
      by simp
    also have "\<dots> = map getSplitClientValue ?bs"
      using ne by simp
    finally have "Value d \<in> set (map getSplitClientValue ?bs)"
      using assms(2) by (metis image_eqI set_map)
    then obtain b where "b \<in> set ?bs" and "Value d = getSplitClientValue b"
      by auto
    then show ?thesis
      by (auto simp: getSplitClientValue_def)
  qed
qed

lemma createSplitClients_member:
  "sc \<in> set (createSplitClients lib groups)
     \<Longrightarrow> \<exists>bg \<in> set groups. createSplitClientDistributions bg = Some (Distributions sc)"
proof (induction groups)
  case Nil
  then show ?case by (simp add: createSplitClients_def)
next
  case (Cons bg groups)
  show ?case
  proof (cases "createSplitClientDistributions bg")
    case None
    with Cons show ?thesis
      by (simp add: createSplitClients_def)
  next
    case (Some ds)
    with Cons.prems
    have "sc = \<lparr>VariableName = convertStringToSafeVariableName lib (GroupName bg), Distributions = ds\<rparr>
          \<or> sc \<in> set (createSplitClients lib groups)"
      by (simp add: createSplitClients_def)
    then show ?thesis
    proof
      assume "sc = \<lparr>VariableName = convertStringToSafeVariableName lib (GroupName bg), Distributions = ds\<rparr>"
      with Some show ?thesis by simp
    next
      assume "sc \<in> set (createSplitClients lib groups)"
      from Cons.IH [OF this] show ?thesis by auto
    qed
  qed
qed

lemma createUpstream_name [simp]: "hu_Name (createUpstream up) = up_Name up"
  by (simp add: createUpstream_def)

lemma createUpstreams_names:
  "hu_Name ` set (createUpstreams ups) = insert invalidBackendRef (up_Name ` set ups)"
  by (simp add: createUpstreams_def createInvalidBackendRefUpstream_def image_image)

lemma routeGroup_cases:
  "routeGroup r i = zeroBackendGroup \<or> (i, routeGroup r i) \<in> set (brs_ByRule (rt_BackendRefs r))"
  by (auto simp: routeGroup_def split: option.splits dest: map_of_SomeD)

text \<open>
  C2. In every emitted data-plane configuration there are no dangling references to
  backends. The routes of the graph carry the backend references that the resolver has
  left on them; the configuration is built from the graph, and the servers, upstreams and
  split clients are generated from it. Then every location that proxies does so either to
  the variable of a backend group of the configuration or to an upstream that is emitted;
  the value of every split-clients distribution is the name of an emitted upstream; and
  the invalid-backend sentinel is always an emitted upstream.
\<close>

theorem no_dangling_references:
  assumes resolved:
      "\<forall>gw kl kr. g_Gateway g = Some gw \<and> kl \<in> set (gw_Listeners gw) \<and> kr \<in> set (l_Routes (snd kl))
         \<longrightarrow> (\<exists>r0. rt_BackendRefs r0 = newBackendRefs \<and> snd kr = resolveRoute R S r0)"
    and conf: "buildConfiguration g = Some conf"
    and servers: "createServers lib conf = Some servers"
  shows "(\<forall>s \<in> set servers. \<forall>loc \<in> set (srv_Locations s).
            loc_ProxyPass loc = []
            \<or> (\<exists>bg \<in> set (BackendGroups conf).
                  loc_ProxyPass loc = createProxyPassForVar lib (GroupName bg))
            \<or> (\<exists>u \<in> set (createUpstreams (Upstreams conf)).
                  loc_ProxyPass loc = createProxyPass (hu_Name u)))
         \<and> (\<forall>sc \<in> set (createSplitClients lib (BackendGroups conf)). \<forall>d \<in> set (Distributions sc).
               \<exists>u \<in> set (createUpstreams (Upstreams conf)). Value d = hu_Name u)
         \<and> (\<exists>u \<in> set (createUpstreams (Upstreams conf)). hu_Name u = invalidBackendRef)"
proof -
  let ?names = "hu_Name ` set (createUpstreams (Upstreams conf))"
  have sentinel: "invalidBackendRef \<in> ?names"
    by (simp add: createUpstreams_names)
  then obtain u0 where "u0 \<in> set (createUpstreams (Upstreams conf))" and "invalidBackendRef = hu_Name u0"
    by (rule imageE)
  then have 3: "\<exists>u \<in> set (createUpstreams (Upstreams conf)). hu_Name u = invalidBackendRef"
    by (intro bexI [of _ u0]) simp_all
  from conf have "conf = emptyConfiguration
      \<or> (\<exists>gw. g_Gateway g = Some gw \<and> Upstreams conf = buildUpstreams (gw_Listeners gw)
                \<and> BackendGroups conf = buildBackendGroups (gw_Listeners gw))"
    by (auto simp: buildConfiguration_def Let_def split: if_splits option.splits)
  then show ?thesis
  proof (elim disjE exE conjE)
    assume "conf = emptyConfiguration"
    with servers have "servers = []" and "createSplitClients lib (BackendGroups conf) = []"
      by (simp_all add: createServers_def createSplitClients_def emptyConfiguration_def)
    with 3 show ?thesis
      by simp
  next
    fix gw
    assume gw: "g_Gateway g = Some gw"
      and ups: "Upstreams conf = buildUpstreams (gw_Listeners gw)"
      and groups: "BackendGroups conf = buildBackendGroups (gw_Listeners gw)"
    \<comment> \<open>the valid backends of the groups of routes of valid listeners are upstreams\<close>
    have valid_backend: "br_Name b \<in> ?names"
      if r: "r \<in> validRoutes (gw_Listeners gw)"
        and ig: "ig \<in> set (brs_ByRule (rt_BackendRefs r))"
        and b: "b \<in> set (bg_Backends (snd ig))" "br_Valid b" for r ig b
    proof -
      from r obtain kl kr where "kl \<in> set (gw_Listeners gw)" and "kr \<in> set (l_Routes (snd kl))"
        and "r = snd kr"
        by (auto simp: validRoutes_def)
      with resolved gw obtain r0 where r0: "rt_BackendRefs r0 = newBackendRefs"
        and rr: "r = resolveRoute R S r0"
        by blast
      from r0 have "brs_ByRule (rt_BackendRefs r0) = []"
        by (simp add: newBackendRefs_def)
      from resolveRoute_valid_names [OF this ig [unfolded rr] b]
      have "br_Name b \<in> fst ` set (brs_Resolved (rt_BackendRefs r))"
        by (simp add: rr)
      from buildUpstreams_names [OF r this] show ?thesis
        by (simp add: createUpstreams_names ups)
    qed
    have 1: "loc_ProxyPass loc = []
             \<or> (\<exists>bg \<in> set (BackendGroups conf). loc_ProxyPass loc = createProxyPassForVar lib (GroupName bg))
             \<or> (\<exists>u \<in> set (createUpstreams (Upstreams conf)). loc_ProxyPass loc = createProxyPass (hu_Name u))"
      if s: "s \<in> set servers" and loc: "loc \<in> set (srv_Locations s)" for s loc
    proof (cases "loc_ProxyPass loc = []")
      case True
      then show ?thesis by simp
    next
      case False
      with createServers_cases [OF servers s loc]
      obtain vs rule k hmo where vs: "vs \<in> set (HTTPServers conf) \<union> set (SSLServers conf)"
        and rule: "rule \<in> set (vs_PathRules vs)" and k: "k < length (pr_MatchRules rule)"
        and c: "createMatchRuleLocation lib (listenerPortOf vs) rule (int k) (pr_MatchRules rule ! k)
                  = Some (loc, hmo)"
        by blast
      let ?mr = "pr_MatchRules rule ! k"
      let ?bg = "mr_BackendGroup ?mr"
      from k have "?mr \<in> set (pr_MatchRules rule)"
        by simp
      from buildConfiguration_rules [OF conf vs rule this] gw
      obtain r where r: "r \<in> validRoutes (gw_Listeners gw)" and fr: "fromRoute r ?mr"
        by auto
      from fr have bg: "?bg = routeGroup r (mr_RuleIdx ?mr)"
        by (simp add: fromRoute_def)
      have nored: "f_RequestRedirect (mr_Filters ?mr) = None"
      proof (rule ccontr)
        assume "f_RequestRedirect (mr_Filters ?mr) \<noteq> None"
        then obtain f where "f_RequestRedirect (mr_Filters ?mr) = Some f"
          by auto
        from createMatchRuleLocation_redirect [OF c this] False show False
          by simp
      qed
      note pp = createMatchRuleLocation_proxy [OF c nored, THEN conjunct2]
      show ?thesis
      proof (cases "NeedsSplit ?bg")
        case True
        then have "?bg \<noteq> zeroBackendGroup"
          by (auto simp: NeedsSplit_def zeroBackendGroup_def)
        with routeGroup_cases [of r "mr_RuleIdx ?mr"] bg
        have "(mr_RuleIdx ?mr, ?bg) \<in> set (brs_ByRule (rt_BackendRefs r))"
          by simp
        from buildBackendGroups_names [OF r this]
        obtain bg' where bg': "bg' \<in> set (buildBackendGroups (gw_Listeners gw))"
          and eq: "GroupName bg' = GroupName ?bg"
          by auto
        from bg' have "bg' \<in> set (BackendGroups conf)"
          by (simp add: groups)
        moreover from pp True have "loc_ProxyPass loc = createProxyPassForVar lib (GroupName ?bg)"
          by (simp add: NeedsSplit_Name GroupName_not_empty)
        then have "loc_ProxyPass loc = createProxyPassForVar lib (GroupName bg')"
          by (simp only: eq)
        ultimately show ?thesis
          by blast
      next
        case ns: False
        from not_NeedsSplit_Name [OF ns]
        consider "Name ?bg = []"
          | b where "bg_Backends ?bg = [b]" "br_Valid b" "Name ?bg = br_Name b"
          by blast
        then have "(if Name ?bg = [] then invalidBackendRef else Name ?bg) \<in> ?names"
        proof cases
          case 1
          with sentinel show ?thesis by simp
        next
          case 2
          then have "?bg \<noteq> zeroBackendGroup"
            by (auto simp: zeroBackendGroup_def)
          with routeGroup_cases [of r "mr_RuleIdx ?mr"] bg
          have "(mr_RuleIdx ?mr, ?bg) \<in> set (brs_ByRule (rt_BackendRefs r))"
            by simp
          from valid_backend [OF r this, of b] 2 sentinel show ?thesis
            by simp
        qed
        then obtain u where u: "u \<in> set (createUpstreams (Upstreams conf))"
          and eq: "(if Name ?bg = [] then invalidBackendRef else Name ?bg) = hu_Name u"
          by (rule imageE)
        from pp ns have "loc_ProxyPass loc
            = createProxyPass (if Name ?bg = [] then invalidBackendRef else Name ?bg)"
          by simp
        then have "loc_ProxyPass loc = createProxyPass (hu_Name u)"
          by (simp only: eq)
        with u show ?thesis
          by blast
      qed
    qed
    have 2: "\<exists>u \<in> set (createUpstreams (Upstreams conf)). Value d = hu_Name u"
      if sc: "sc \<in> set (createSplitClients lib (BackendGroups conf))" and d: "d \<in> set (Distributions sc)"
      for sc d
    proof -
      from createSplitClients_member [OF sc] obtain bg where bg: "bg \<in> set (BackendGroups conf)"
        and ds: "createSplitClientDistributions bg = Some (Distributions sc)"
        by blast
      from createSplitClientDistributions_values [OF ds d]
      have "Value d \<in> ?names"
      proof
        assume "Value d = invalidBackendRef"
        with sentinel show ?thesis by simp
      next
        assume "\<exists>b \<in> set (bg_Backends bg). br_Valid b \<and> Value d = br_Name b"
        then obtain b where b: "b \<in> set (bg_Backends bg)" "br_Valid b" and v: "Value d = br_Name b"
          by blast
        from bg have "bg \<in> set (buildBackendGroups (gw_Listeners gw))"
          by (simp add: groups)
        from buildBackendGroups_members [OF this]
        obtain r ig where "r \<in> validRoutes (gw_Listeners gw)"
          and "ig \<in> set (brs_ByRule (rt_BackendRefs r))" and "bg = snd ig"
          by blast
        with valid_backend [of r ig b] b v show ?thesis
          by simp
      qed
      then obtain u where "u \<in> set (createUpstreams (Upstreams conf))" and "Value d = hu_Name u"
        by (rule imageE)
      then show ?thesis
        by blast
    qed
    from 1 2 3 show ?thesis
      by blast
  qed
qed

text \<open>
  The example graph: its route after resolution, the configuration built from it, and the
  servers generated from that configuration.
\<close>

lemma exampleResolvedRefs_eval:
  "getServiceAndPortFromRef (exampleRef ''svc1'' 80 1) ''test'' exampleServices
     = Inr (\<lparr>svc_Namespace = ''test'', svc_Name = ''svc1''\<rparr>, 80)"
  "getServiceAndPortFromRef (exampleRef ''dne'' 80 1) ''test'' exampleServices
     = Inl ''the Service test/dne does not exist''"
  by (simp_all add: getServiceAndPortFromRef_def validateBackendRef_def exampleRef_def
        exampleServices_def nn_String_def)

lemma exampleResolvedRoute_eval:
  "resolveRoute exampleResolver exampleServices exampleResolvedRoute0
   = \<lparr>rt_Source = rt_Source exampleResolvedRoute0,
      rt_BackendRefs =
        \<lparr>brs_Errors = [''the Service test/dne does not exist''],
         brs_Resolved = [(''test_svc1_80'', [\<lparr>ep_Address = ''svc1'', ep_Port = 80\<rparr>])],
         brs_ByRule =
           [(0, \<lparr>bg_Source = \<lparr>nn_Namespace = ''test'', nn_Name = ''hr-1''\<rparr>, bg_RuleIdx = 0,
                 bg_Backends = [\<lparr>br_Name = ''test_svc1_80'', br_Valid = True, br_Weight = 1\<rparr>,
                                \<lparr>br_Name = [], br_Valid = False, br_Weight = 1\<rparr>]\<rparr>),
            (1, \<lparr>bg_Source = \<lparr>nn_Namespace = ''test'', nn_Name = ''hr-1''\<rparr>, bg_RuleIdx = 1,
                 bg_Backends = [\<lparr>br_Name = ''test_svc1_80'', br_Valid = True, br_Weight = 1\<rparr>]\<rparr>)]\<rparr>\<rparr>"
  by (simp add: resolveRoute_def resolveRule_def resolveRef_def exampleResolvedRoute0_def
        newBackendRefs_def enumerate_eq_zip exampleResolvedRefs_eval backendName_def
        exampleResolver_def itoa_def string_of_nat.simps digit_char_def Let_def)
     (simp add: exampleRef_def)


lemma exampleResolvedGraph_conf:
  "buildConfiguration exampleResolvedGraph
   = Some
      \<lparr>HTTPServers =
         [\<lparr>vs_Hostname = ''foo.example.com'',
           vs_PathRules =
             [\<lparr>pr_Path = ''/'',
               pr_MatchRules =
                 [\<lparr>mr_MatchIdx = 0, mr_RuleIdx = 0, mr_Filters = \<lparr>f_RequestRedirect = None\<rparr>,
                   mr_BackendGroup =
                     \<lparr>bg_Source = \<lparr>nn_Namespace = ''test'', nn_Name = ''hr-1''\<rparr>, bg_RuleIdx = 0,
                      bg_Backends =
                        [\<lparr>br_Name = ''test_svc1_80'', br_Valid = True, br_Weight = 1\<rparr>,
                         \<lparr>br_Name = [], br_Valid = False, br_Weight = 1\<rparr>]\<rparr>,
                   mr_Source = rt_Source exampleResolvedRoute0\<rparr>]\<rparr>,
              \<lparr>pr_Path = ''/single'',
               pr_MatchRules =
                 [\<lparr>mr_MatchIdx = 0, mr_RuleIdx = 1, mr_Filters = \<lparr>f_RequestRedirect = None\<rparr>,
                   mr_BackendGroup =
                     \<lparr>bg_Source = \<lparr>nn_Namespace = ''test'', nn_Name = ''hr-1''\<rparr>, bg_RuleIdx = 1,
                      bg_Backends =
                        [\<lparr>br_Name = ''test_svc1_80'', br_Valid = True, br_Weight = 1\<rparr>]\<rparr>,
                   mr_Source = rt_Source exampleResolvedRoute0\<rparr>]\<rparr>],
           vs_SSL = None\<rparr>],
       SSLServers = [],
       Upstreams =
         [\<lparr>up_Name = ''test_svc1_80'', up_Endpoints = [\<lparr>ep_Address = ''svc1'', ep_Port = 80\<rparr>]\<rparr>],
       BackendGroups =
         [\<lparr>bg_Source = \<lparr>nn_Namespace = ''test'', nn_Name = ''hr-1''\<rparr>, bg_RuleIdx = 0,
           bg_Backends =
             [\<lparr>br_Name = ''test_svc1_80'', br_Valid = True, br_Weight = 1\<rparr>,
              \<lparr>br_Name = [], br_Valid = False, br_Weight = 1\<rparr>]\<rparr>,
          \<lparr>bg_Source = \<lparr>nn_Namespace = ''test'', nn_Name = ''hr-1''\<rparr>, bg_RuleIdx = 1,
           bg_Backends =
             [\<lparr>br_Name = ''test_svc1_80'', br_Valid = True, br_Weight = 1\<rparr>]\<rparr>]\<rparr>"
  unfolding exampleResolvedGraph_def exampleResolvedRoute_eval
  by (simp add: exampleResolvedRoute0_def exampleMatch_def configuration_defs
        GroupName_def enumerate_eq_zip Let_def itoa_def string_of_nat.simps digit_char_def)


lemma exampleResolvedGraph_servers:
  "createServers exampleLib (the (buildConfiguration exampleResolvedGraph))
   = Some
      [\<lparr>srv_SSL = None, srv_ServerName = [], srv_Locations = [],
        srv_IsDefaultHTTP = True, srv_IsDefaultSSL = False\<rparr>,
       \<lparr>srv_SSL = None, srv_ServerName = ''foo.example.com'',
        srv_Locations =
          [\<lparr>loc_Return = None, loc_Path = ''/'', loc_ProxyPass = ''http://$test_hr_1_rule0'',
            loc_HTTPMatchVar = [], loc_Internal = False\<rparr>,
           \<lparr>loc_Return = None, loc_Path = ''/single'', loc_ProxyPass = ''http://test_svc1_80'',
            loc_HTTPMatchVar = [], loc_Internal = False\<rparr>],
        srv_IsDefaultHTTP = False, srv_IsDefaultSSL = False\<rparr>]"
  unfolding exampleResolvedGraph_conf option.sel
  by (simp add: createServers_def createDefaultHTTPServer_def server_defs exampleLib_def
        exampleResolvedRoute0_def exampleMatch_def enumerate_eq_zip
        itoa_def string_of_nat.simps digit_char_def)

theorem no_dangling_references_witness:
  "buildConfiguration exampleResolvedGraph \<noteq> None
   \<and> map_option (map (\<lambda>s. map loc_ProxyPass (srv_Locations s)))
        (createServers exampleLib (the (buildConfiguration exampleResolvedGraph)))
      = Some [[], [''http://$test_hr_1_rule0'', ''http://test_svc1_80'']]
   \<and> map hu_Name (createUpstreams (Upstreams (the (buildConfiguration exampleResolvedGraph))))
      = [''test_svc1_80'', ''invalid-backend-ref'']
   \<and> list_all
        (\<lambda>s. list_all
           (\<lambda>loc. loc_ProxyPass loc = []
              \<or> (\<exists>bg \<in> set (BackendGroups (the (buildConfiguration exampleResolvedGraph))).
                    loc_ProxyPass loc = createProxyPassForVar exampleLib (GroupName bg))
              \<or> (\<exists>u \<in> set (createUpstreams
                              (Upstreams (the (buildConfiguration exampleResolvedGraph)))).
                    loc_ProxyPass loc = createProxyPass (hu_Name u)))
           (srv_Locations s))
        (the (createServers exampleLib (the (buildConfiguration exampleResolvedGraph))))
   \<and> list_all
        (\<lambda>sc. list_all
           (\<lambda>d. \<exists>u \<in> set (createUpstreams
                            (Upstreams (the (buildConfiguration exampleResolvedGraph)))).
                  Value d = hu_Name u)
           (Distributions sc))
        (createSplitClients exampleLib
           (BackendGroups (the (buildConfiguration exampleResolvedGraph))))
   \<and> (\<exists>u \<in> set (createUpstreams (Upstreams (the (buildConfiguration exampleResolvedGraph)))).
         hu_Name u = invalidBackendRef)"
proof -
  let ?C = "the (buildConfiguration exampleResolvedGraph)"
  let ?S = "the (createServers exampleLib ?C)"
  have resolved:
    "\<forall>gw kl kr. g_Gateway exampleResolvedGraph = Some gw \<and> kl \<in> set (gw_Listeners gw)
         \<and> kr \<in> set (l_Routes (snd kl))
       \<longrightarrow> (\<exists>r0. rt_BackendRefs r0 = newBackendRefs
                \<and> snd kr = resolveRoute exampleResolver exampleServices r0)"
  proof (intro allI impI)
    fix gw :: gateway and kl :: "string \<times> listener" and kr :: "NamespacedName \<times> route"
    assume "g_Gateway exampleResolvedGraph = Some gw \<and> kl \<in> set (gw_Listeners gw)
            \<and> kr \<in> set (l_Routes (snd kl))"
    then have "snd kr = resolveRoute exampleResolver exampleServices exampleResolvedRoute0"
      by (auto simp: exampleResolvedGraph_def)
    moreover have "rt_BackendRefs exampleResolvedRoute0 = newBackendRefs"
      by (simp add: exampleResolvedRoute0_def)
    ultimately show "\<exists>r0. rt_BackendRefs r0 = newBackendRefs
                \<and> snd kr = resolveRoute exampleResolver exampleServices r0"
      by blast
  qed
  have conf: "buildConfiguration exampleResolvedGraph = Some ?C"
    by (simp add: exampleResolvedGraph_conf)
  have servers: "createServers exampleLib ?C = Some ?S"
    by (simp add: exampleResolvedGraph_servers)
  note T = no_dangling_references [OF resolved conf servers]
  have 1: "buildConfiguration exampleResolvedGraph \<noteq> None"
    by (simp add: exampleResolvedGraph_conf)
  have 2: "map_option (map (\<lambda>s. map loc_ProxyPass (srv_Locations s))) (createServers exampleLib ?C)
           = Some [[], [''http://$test_hr_1_rule0'', ''http://test_svc1_80'']]"
    by (simp add: exampleResolvedGraph_servers)
  have 3: "map hu_Name (createUpstreams (Upstreams ?C)) = [''test_svc1_80'', ''invalid-backend-ref'']"
    by (simp add: exampleResolvedGraph_conf createUpstreams_def createUpstream_def
          createInvalidBackendRefUpstream_def invalidBackendRef_def)
  from T 1 2 3 show ?thesis
    unfolding list_all_iff by blast
qed

end
